theory Spec2Isabelle
  imports Complex_Main "HOL-Library.AList"
begin

section \<open>Python values and the primitives the pipeline uses\<close>

text \<open>
  The pipeline of \<^verbatim>\<open>anthropic_manifold_pipeline.py\<close> works on untyped JSON-like
  data: messages, content parts, the options dictionary, the request payload and the
  provider's answers are Python dictionaries, lists, strings and numbers. They are
  modelled by one datatype. A dictionary is an association list whose first binding
  of a key is the one that counts (\<open>map_of\<close>); a float is carried by the rational
  number its literal denotes, which is enough here because the program only passes
  floats on.
\<close>

datatype pyval =
    PNone
  | PBool bool
  | PInt int
  | PFloat rat
  | PStr string
  | PList "pyval list"
  | PDict "(string \<times> pyval) list"

type_synonym pydict = "(string \<times> pyval) list"

text \<open>
  Exceptions are values. Each constructor carries the text that \<^verbatim>\<open>str(e)\<close> gives,
  because \<^verbatim>\<open>pipe\<close> formats the exception it catches into its result.
  Messages produced by the interpreter follow the wording of CPython 3.11 and later.
\<close>

datatype py_error =
    KeyError string
  | IndexError string
  | TypeError string
  | AttributeError string
  | ValueError string
  | JSONDecodeError string
  | RecursionError string
  | Exception string

fun str_error :: "py_error \<Rightarrow> string" where
  "str_error (KeyError m) = m"
| "str_error (IndexError m) = m"
| "str_error (TypeError m) = m"
| "str_error (AttributeError m) = m"
| "str_error (ValueError m) = m"
| "str_error (JSONDecodeError m) = m"
| "str_error (RecursionError m) = m"
| "str_error (Exception m) = m"

text \<open>A name between single quotes, as the interpreter's messages print it.\<close>

definition quoted :: "string \<Rightarrow> string" where
  "quoted s = [CHR 0x27] @ s @ [CHR 0x27]"

fun type_name :: "pyval \<Rightarrow> string" where
  "type_name PNone = ''NoneType''"
| "type_name (PBool _) = ''bool''"
| "type_name (PInt _) = ''int''"
| "type_name (PFloat _) = ''float''"
| "type_name (PStr _) = ''str''"
| "type_name (PList _) = ''list''"
| "type_name (PDict _) = ''dict''"

text \<open>Truth value of an object, as \<^verbatim>\<open>if x:\<close> tests it.\<close>

fun truthy :: "pyval \<Rightarrow> bool" where
  "truthy PNone = False"
| "truthy (PBool b) = b"
| "truthy (PInt i) = (i \<noteq> 0)"
| "truthy (PFloat r) = (r \<noteq> 0)"
| "truthy (PStr s) = (s \<noteq> [])"
| "truthy (PList xs) = (xs \<noteq> [])"
| "truthy (PDict d) = (d \<noteq> [])"

text \<open>
  \<^verbatim>\<open>x["k"]\<close> with a string key: a dictionary raises KeyError (whose text is the
  \<^verbatim>\<open>repr\<close> of the key) when the key is missing, every other value raises TypeError.
\<close>

fun subscript :: "pyval \<Rightarrow> string \<Rightarrow> py_error + pyval" where
  "subscript (PDict d) k =
     (case map_of d k of
        None \<Rightarrow> Inl (KeyError (quoted k))
      | Some v \<Rightarrow> Inr v)"
| "subscript (PStr s) k = Inl (TypeError (''string indices must be integers, not '' @ quoted ''str''))"
| "subscript (PList xs) k =
     Inl (TypeError ''list indices must be integers or slices, not str'')"
| "subscript v k = Inl (TypeError (quoted (type_name v) @ '' object is not subscriptable''))"

text \<open>\<^verbatim>\<open>x[0]\<close>.\<close>

fun index0 :: "pyval \<Rightarrow> py_error + pyval" where
  "index0 (PList []) = Inl (IndexError ''list index out of range'')"
| "index0 (PList (x # xs)) = Inr x"
| "index0 (PStr []) = Inl (IndexError ''string index out of range'')"
| "index0 (PStr (c # cs)) = Inr (PStr [c])"
| "index0 (PDict d) = Inl (KeyError ''0'')"
| "index0 v = Inl (TypeError (quoted (type_name v) @ '' object is not subscriptable''))"

text \<open>The error of calling a method that the value's type does not have.\<close>

definition no_attribute :: "pyval \<Rightarrow> string \<Rightarrow> py_error" where
  "no_attribute v name =
     AttributeError (quoted (type_name v) @ '' object has no attribute '' @ quoted name)"

text \<open>\<^verbatim>\<open>d.get(k, default)\<close>; only dictionaries have the method.\<close>

fun dict_get :: "pyval \<Rightarrow> string \<Rightarrow> pyval \<Rightarrow> py_error + pyval" where
  "dict_get (PDict d) k dflt = Inr (case map_of d k of None \<Rightarrow> dflt | Some v \<Rightarrow> v)"
| "dict_get v k dflt = Inl (no_attribute v ''get'')"

text \<open>\<^verbatim>\<open>needle in s\<close> on two strings: a substring test.\<close>

fun is_substring :: "string \<Rightarrow> string \<Rightarrow> bool" where
  "is_substring p [] = (p = [])"
| "is_substring p (c # cs) = (take (length p) (c # cs) = p \<or> is_substring p cs)"

text \<open>\<^verbatim>\<open>"k" in x\<close>.\<close>

fun contains :: "pyval \<Rightarrow> string \<Rightarrow> py_error + bool" where
  "contains (PDict d) k = Inr (map_of d k \<noteq> None)"
| "contains (PList xs) k = Inr (PStr k \<in> set xs)"
| "contains (PStr s) k = Inr (is_substring k s)"
| "contains v k = Inl (TypeError (''argument of type '' @ quoted (type_name v) @ '' is not iterable''))"

text \<open>\<^verbatim>\<open>s.startswith(p)\<close> on a string, and \<^verbatim>\<open>len(x)\<close>.\<close>

definition starts_with :: "string \<Rightarrow> string \<Rightarrow> bool" where
  "starts_with s p = (take (length p) s = p)"

fun py_len :: "pyval \<Rightarrow> py_error + nat" where
  "py_len (PStr s) = Inr (length s)"
| "py_len (PList xs) = Inr (length xs)"
| "py_len (PDict d) = Inr (length d)"
| "py_len v = Inl (TypeError (''object of type '' @ quoted (type_name v) @ '' has no len()''))"

text \<open>
  \<^verbatim>\<open>s.split(c)\<close> for a one-character separator (the result is never empty) and
  \<^verbatim>\<open>s.split(c, 1)\<close>, which cuts at the first separator only.
\<close>

fun split_on :: "char \<Rightarrow> string \<Rightarrow> string list" where
  "split_on c [] = [[]]"
| "split_on c (x # xs) =
     (if x = c then [] # split_on c xs
      else (case split_on c xs of
              [] \<Rightarrow> [[x]]
            | w # ws \<Rightarrow> (x # w) # ws))"

definition split_once :: "char \<Rightarrow> string \<Rightarrow> string list" where
  "split_once c s =
     (if c \<in> set s then [takeWhile (\<lambda>x. x \<noteq> c) s, tl (dropWhile (\<lambda>x. x \<noteq> c) s)]
      else [s])"

text \<open>\<^verbatim>\<open>xs[i]\<close> on a list, for an index that is not negative.\<close>

definition list_index :: "'a list \<Rightarrow> nat \<Rightarrow> py_error + 'a" where
  "list_index xs i =
     (if i < length xs then Inr (xs ! i) else Inl (IndexError ''list index out of range''))"

text \<open>\<^verbatim>\<open>a, b = xs\<close>: unpacking into two names.\<close>

fun unpack2 :: "'a list \<Rightarrow> py_error + ('a \<times> 'a)" where
  "unpack2 [a, b] = Inr (a, b)"
| "unpack2 [] = Inl (ValueError ''not enough values to unpack (expected 2, got 0)'')"
| "unpack2 [a] = Inl (ValueError ''not enough values to unpack (expected 2, got 1)'')"
| "unpack2 (a # b # c # xs) = Inl (ValueError ''too many values to unpack (expected 2)'')"

text \<open>Decimal text of a number, as an f-string prints an \<^verbatim>\<open>int\<close>.\<close>

definition digit_char :: "nat \<Rightarrow> char" where
  "digit_char d = ''0123456789'' ! d"

function str_nat :: "nat \<Rightarrow> string" where
  "str_nat n = (if n < 10 then [digit_char n] else str_nat (n div 10) @ [digit_char (n mod 10)])"
  by pat_completeness auto
termination
  by (relation "measure (\<lambda>n. n)") auto

declare str_nat.simps [simp del]


section \<open>The collaborators outside the file\<close>

text \<open>
  What \<^verbatim>\<open>requests.post\<close> returns, as far as the pipeline reads it: the status code,
  \<^verbatim>\<open>response.text\<close>, the outcome of \<^verbatim>\<open>response.json()\<close>, and the
  \<^verbatim>\<open>data\<close> of each event that \<^verbatim>\<open>sseclient.SSEClient(response).events()\<close>
  delivers, in order.
\<close>

record response =
  status_code :: nat
  body_text :: string
  json :: "py_error + pyval"
  events :: "string list"

text \<open>
  The libraries and the imported helper are parameters of the model:
  \<^verbatim>\<open>pop_system_message\<close> of \<^verbatim>\<open>utils.pipelines.main\<close>, which is not part of
  the file (the type of its result follows the specification: the system text, if
  any, and the remaining messages), the tokenizer of \<^verbatim>\<open>tiktoken\<close> (which may
  raise), the provider behind \<^verbatim>\<open>requests.post\<close> (URL and headers are fixed, so the
  answer depends on the payload), and \<^verbatim>\<open>json.loads\<close>, which returns a value
  or raises: \<^verbatim>\<open>json.JSONDecodeError\<close> for a text that is not JSON, and also
  \<^verbatim>\<open>ValueError\<close> (an integer with more digits than the interpreter converts) or
  \<^verbatim>\<open>RecursionError\<close> (a nesting too deep) for a text that is.
\<close>

record world =
  pop_system_message :: "pyval list \<Rightarrow> string option \<times> pyval list"
  encode :: "pyval \<Rightarrow> py_error + nat list"
  requests_post :: "pyval \<Rightarrow> response"
  json_loads :: "string \<Rightarrow> py_error + pyval"

section \<open>The pipeline\<close>

subsection \<open>\<^verbatim>\<open>get_tokens\<close> and \<^verbatim>\<open>process_image\<close>\<close>

definition get_tokens :: "world \<Rightarrow> pyval \<Rightarrow> py_error + nat" where
  "get_tokens w text_arg =
     (case encode w text_arg of
        Inl e \<Rightarrow> Inl e
      | Inr tokens \<Rightarrow> Inr (length tokens))"

definition process_image :: "pyval \<Rightarrow> py_error + pyval" where
  "process_image image_data =
     (case subscript image_data ''url'' of
        Inl e \<Rightarrow> Inl e
      | Inr (PStr url) \<Rightarrow>
          (if starts_with url ''data:image'' then
             (case unpack2 (split_once CHR '','' url) of
                Inl e \<Rightarrow> Inl e
              | Inr (mime_type, base64_data) \<Rightarrow>
                  (case list_index (split_on CHR '':'' mime_type) 1 of
                     Inl e \<Rightarrow> Inl e
                   | Inr after_colon \<Rightarrow>
                       (case list_index (split_on CHR '';'' after_colon) 0 of
                          Inl e \<Rightarrow> Inl e
                        | Inr media_type \<Rightarrow>
                            Inr (PDict [(''type'', PStr ''image''),
                                        (''source'', PDict [(''type'', PStr ''base64''),
                                                            (''media_type'', PStr media_type),
                                                            (''data'', PStr base64_data)])]))))
           else
             Inr (PDict [(''type'', PStr ''image''),
                         (''source'', PDict [(''type'', PStr ''url''), (''url'', PStr url)])]))
      | Inr v \<Rightarrow> Inl (no_attribute v ''startswith''))"

subsection \<open>The normalization loop of \<^verbatim>\<open>pipe\<close>\<close>

text \<open>The local variables that the two nested loops of \<^verbatim>\<open>pipe\<close> update.\<close>

record locals =
  processed_messages :: "pyval list"
  processed_content :: "pyval list"
  image_count :: nat
  total_image_size :: rat
  cached :: bool

definition caching_model :: string where
  "caching_model = ''claude-3-5-sonnet-20241022''"

text \<open>
  The block that \<^verbatim>\<open>pipe\<close> has twice (for a text part and for a plain content):
  build the text part and, when the model is the caching one and the text has at
  least 1024 tokens, add \<^verbatim>\<open>cache_control\<close>. The \<^verbatim>\<open>and\<close> is evaluated left to
  right, so the tokenizer runs for the caching model only. The result is the part and
  whether \<^verbatim>\<open>cached\<close> was set.
\<close>

definition text_part :: "world \<Rightarrow> string \<Rightarrow> pyval \<Rightarrow> py_error + (pyval \<times> bool)" where
  "text_part w model_id text_arg =
     (let text_content = [(''type'', PStr ''text''), (''text'', text_arg)]
      in if model_id = caching_model then
           (case get_tokens w text_arg of
              Inl e \<Rightarrow> Inl e
            | Inr n \<Rightarrow>
                (if n \<ge> 1024
                 then Inr (PDict (AList.update ''cache_control''
                                    (PDict [(''type'', PStr ''ephemeral'')]) text_content), True)
                 else Inr (PDict text_content, False)))
         else Inr (PDict text_content, False))"

text \<open>
  The size that \<^verbatim>\<open>pipe\<close> adds for a processed image:
  \<^verbatim>\<open>len(data) * 3 / 4\<close> for a base64 source, 0 otherwise. Python computes it in
  floating point; up to the limit of 100 MiB all the values are multiples of 1/4 far
  below \<open>2^53\<close>, where floating point is exact, and a value that would be rounded is
  above the limit before and after rounding, so the comparison with the limit is the
  one of the exact numbers.
\<close>

definition image_size_of :: "pyval \<Rightarrow> py_error + rat" where
  "image_size_of processed_image =
     (case subscript processed_image ''source'' of
        Inl e \<Rightarrow> Inl e
      | Inr source \<Rightarrow>
          (case subscript source ''type'' of
             Inl e \<Rightarrow> Inl e
           | Inr ty \<Rightarrow>
               (if ty = PStr ''base64'' then
                  (case subscript source ''data'' of
                     Inl e \<Rightarrow> Inl e
                   | Inr d \<Rightarrow>
                       (case py_len d of
                          Inl e \<Rightarrow> Inl e
                        | Inr n \<Rightarrow> Inr (of_nat n * 3 / 4)))
                else Inr 0)))"

text \<open>
  One pass of the inner loop, over one part of a content list. The program appends
  the processed image before it checks the size; an exception discards the local
  variables, so the model appends on the path that goes on.
\<close>

definition process_item :: "world \<Rightarrow> string \<Rightarrow> locals \<Rightarrow> pyval \<Rightarrow> py_error + locals" where
  "process_item w model_id st item =
     (case subscript item ''type'' of
        Inl e \<Rightarrow> Inl e
      | Inr ty \<Rightarrow>
          (if ty = PStr ''text'' then
             (case subscript item ''text'' of
                Inl e \<Rightarrow> Inl e
              | Inr text_arg \<Rightarrow>
                  (case text_part w model_id text_arg of
                     Inl e \<Rightarrow> Inl e
                   | Inr (text_content, c) \<Rightarrow>
                       Inr (st\<lparr>processed_content := processed_content st @ [text_content],
                               cached := (cached st \<or> c)\<rparr>)))
           else if ty = PStr ''image_url'' then
             (if image_count st \<ge> 5
              then Inl (ValueError ''Maximum of 5 images per API call exceeded'')
              else
                (case subscript item ''image_url'' of
                   Inl e \<Rightarrow> Inl e
                 | Inr image_data \<Rightarrow>
                     (case process_image image_data of
                        Inl e \<Rightarrow> Inl e
                      | Inr processed_image \<Rightarrow>
                          (case image_size_of processed_image of
                             Inl e \<Rightarrow> Inl e
                           | Inr image_size \<Rightarrow>
                               (if total_image_size st + image_size > 100 * 1024 * 1024
                                then Inl (ValueError ''Total size of images exceeds 100 MB limit'')
                                else Inr (st\<lparr>processed_content :=
                                                processed_content st @ [processed_image],
                                              total_image_size := total_image_size st + image_size,
                                              image_count := image_count st + 1\<rparr>))))))
           else Inr st))"

fun process_items :: "world \<Rightarrow> string \<Rightarrow> locals \<Rightarrow> pyval list \<Rightarrow> py_error + locals" where
  "process_items w model_id st [] = Inr st"
| "process_items w model_id st (item # items) =
     (case process_item w model_id st item of
        Inl e \<Rightarrow> Inl e
      | Inr st' \<Rightarrow> process_items w model_id st' items)"

text \<open>One pass of the outer loop, over one message.\<close>

definition process_message :: "world \<Rightarrow> string \<Rightarrow> locals \<Rightarrow> pyval \<Rightarrow> py_error + locals" where
  "process_message w model_id st0 message =
     (let st = st0\<lparr>processed_content := []\<rparr>
      in case dict_get message ''content'' PNone of
           Inl e \<Rightarrow> Inl e
         | Inr c \<Rightarrow>
             (case (case c of
                      PList items \<Rightarrow> process_items w model_id st items
                    | _ \<Rightarrow>
                        (case dict_get message ''content'' (PStr []) of
                           Inl e \<Rightarrow> Inl e
                         | Inr text_arg \<Rightarrow>
                             (case text_part w model_id text_arg of
                                Inl e \<Rightarrow> Inl e
                              | Inr (text_content, c) \<Rightarrow>
                                  Inr (st\<lparr>processed_content := [text_content],
                                          cached := (cached st \<or> c)\<rparr>)))) of
                Inl e \<Rightarrow> Inl e
              | Inr st1 \<Rightarrow>
                  (case subscript message ''role'' of
                     Inl e \<Rightarrow> Inl e
                   | Inr role \<Rightarrow>
                       Inr (st1\<lparr>processed_messages :=
                                  processed_messages st1 @
                                  [PDict [(''role'', role),
                                          (''content'', PList (processed_content st1))]]\<rparr>))))"

fun process_messages :: "world \<Rightarrow> string \<Rightarrow> locals \<Rightarrow> pyval list \<Rightarrow> py_error + locals" where
  "process_messages w model_id st [] = Inr st"
| "process_messages w model_id st (message # messages) =
     (case process_message w model_id st message of
        Inl e \<Rightarrow> Inl e
      | Inr st' \<Rightarrow> process_messages w model_id st' messages)"

definition initial_locals :: locals where
  "initial_locals =
     \<lparr>processed_messages = [], processed_content = [], image_count = 0,
      total_image_size = 0, cached = False\<rparr>"

text \<open>
  Normalization: the loop run from the initial values of the local variables; its
  result is \<^verbatim>\<open>processed_messages\<close>, or the exception that ended it.
\<close>

definition normalize :: "world \<Rightarrow> string \<Rightarrow> pyval list \<Rightarrow> py_error + pyval list" where
  "normalize w model_id messages =
     (case process_messages w model_id initial_locals messages of
        Inl e \<Rightarrow> Inl e
      | Inr st \<Rightarrow> Inr (processed_messages st))"


subsection \<open>The payload\<close>

text \<open>\<^verbatim>\<open>body.get(k, default)\<close> and \<^verbatim>\<open>body.pop(k, None)\<close> on the options dictionary.\<close>

definition body_get :: "pydict \<Rightarrow> string \<Rightarrow> pyval \<Rightarrow> pyval" where
  "body_get body k dflt = (case map_of body k of None \<Rightarrow> dflt | Some v \<Rightarrow> v)"

definition remove_keys :: "pydict \<Rightarrow> pydict" where
  "remove_keys body = fold AList.delete [''user'', ''chat_id'', ''title''] body"

text \<open>
  Lines 105 to 178 of \<^verbatim>\<open>pipe\<close>: the system message is split off, the messages are
  normalized and the payload is built. The \<^verbatim>\<open>system\<close> entry is there when
  \<^verbatim>\<open>system_message\<close> is true as a condition, which for a string means non-empty.
\<close>

definition prepare_payload :: "world \<Rightarrow> string \<Rightarrow> pyval list \<Rightarrow> pydict \<Rightarrow> py_error + pyval" where
  "prepare_payload w model_id messages0 body =
     (case pop_system_message w messages0 of
        (system_message, messages) \<Rightarrow>
          (case normalize w model_id messages of
             Inl e \<Rightarrow> Inl e
           | Inr processed \<Rightarrow>
               Inr (PDict
                 ([(''model'', PStr model_id),
                   (''messages'', PList processed),
                   (''max_tokens'', body_get body ''max_tokens'' (PInt 4096)),
                   (''temperature'', body_get body ''temperature'' (PFloat (8 / 10))),
                   (''top_k'', body_get body ''top_k'' (PInt 40)),
                   (''top_p'', body_get body ''top_p'' (PFloat (9 / 10))),
                   (''stop_sequences'', body_get body ''stop'' (PList []))] @
                  (case system_message of
                     None \<Rightarrow> []
                   | Some s \<Rightarrow> (if s \<noteq> [] then [(''system'', PStr s)] else [])) @
                  [(''stream'', body_get body ''stream'' (PBool False))]))))"

subsection \<open>\<^verbatim>\<open>get_completion\<close>\<close>

text \<open>
  The answer that \<^verbatim>\<open>get_completion\<close> takes out of a response. In
  \<^verbatim>\<open>A if C else B\<close> the condition runs first; its \<^verbatim>\<open>and\<close> stops at a false
  left operand.
\<close>

definition completion_of :: "response \<Rightarrow> py_error + pyval" where
  "completion_of r =
     (if status_code r = 200 then
        (case json r of
           Inl e \<Rightarrow> Inl e
         | Inr res \<Rightarrow>
             (case contains res ''content'' of
                Inl e \<Rightarrow> Inl e
              | Inr False \<Rightarrow> Inr (PStr [])
              | Inr True \<Rightarrow>
                  (case subscript res ''content'' of
                     Inl e \<Rightarrow> Inl e
                   | Inr content \<Rightarrow>
                       (if truthy content then
                          (case index0 content of
                             Inl e \<Rightarrow> Inl e
                           | Inr block \<Rightarrow> subscript block ''text'')
                        else Inr (PStr [])))))
      else Inl (Exception (''Error: '' @ str_nat (status_code r) @ '' - '' @ body_text r)))"

text \<open>
  The network is a state: the list of the payloads posted so far. A call of
  \<^verbatim>\<open>requests.post\<close> adds one.
\<close>

definition post :: "world \<Rightarrow> pyval \<Rightarrow> pyval list \<Rightarrow> response \<times> pyval list" where
  "post w payload sent = (requests_post w payload, sent @ [payload])"

definition get_completion ::
  "world \<Rightarrow> pyval \<Rightarrow> pyval list \<Rightarrow> (py_error + pyval) \<times> pyval list" where
  "get_completion w payload sent =
     (case post w payload sent of (r, sent') \<Rightarrow> (completion_of r, sent'))"

subsection \<open>\<^verbatim>\<open>stream_response\<close>\<close>

text \<open>
  What the consumer of the generator sees, in order: the values yielded and the lines
  printed, and at the end either the normal end of the iteration or an exception.
\<close>

datatype log_line =
    FailedToParse string
  | UnexpectedStructure py_error
  | FullData pyval

datatype action = Yield pyval | Print log_line

type_synonym trace = "action list \<times> py_error option"

text \<open>The body of the \<^verbatim>\<open>try\<close> after \<^verbatim>\<open>json.loads\<close>: yield, go on, or leave the loop.\<close>

datatype step = Emit pyval | Pass | Break

definition handle_data :: "pyval \<Rightarrow> py_error + step" where
  "handle_data data =
     (case subscript data ''type'' of
        Inl e \<Rightarrow> Inl e
      | Inr ty \<Rightarrow>
          (if ty = PStr ''content_block_start'' then
             (case subscript data ''content_block'' of
                Inl e \<Rightarrow> Inl e
              | Inr block \<Rightarrow>
                  (case subscript block ''text'' of
                     Inl e \<Rightarrow> Inl e
                   | Inr t \<Rightarrow> Inr (Emit t)))
           else if ty = PStr ''content_block_delta'' then
             (case subscript data ''delta'' of
                Inl e \<Rightarrow> Inl e
              | Inr delta \<Rightarrow>
                  (case subscript delta ''text'' of
                     Inl e \<Rightarrow> Inl e
                   | Inr t \<Rightarrow> Inr (Emit t)))
           else if ty = PStr ''message_stop'' then Inr Break
           else Inr Pass))"

definition emit :: "action list \<Rightarrow> trace \<Rightarrow> trace" where
  "emit as t = (as @ fst t, snd t)"

text \<open>
  The loop over the events. Of the exceptions of the body only
  \<^verbatim>\<open>json.JSONDecodeError\<close> and \<^verbatim>\<open>KeyError\<close> have a handler; any other one,
  from \<^verbatim>\<open>json.loads\<close> or from the lookups, leaves the generator.
\<close>

fun events_loop :: "world \<Rightarrow> string list \<Rightarrow> trace" where
  "events_loop w [] = ([], None)"
| "events_loop w (event_data # rest) =
     (case json_loads w event_data of
        Inl (JSONDecodeError m) \<Rightarrow>
          emit [Print (FailedToParse event_data)] (events_loop w rest)
      | Inl e \<Rightarrow> ([], Some e)
      | Inr data \<Rightarrow>
          (case handle_data data of
             Inr (Emit t) \<Rightarrow> emit [Yield t] (events_loop w rest)
           | Inr Pass \<Rightarrow> events_loop w rest
           | Inr Break \<Rightarrow> ([], None)
           | Inl (KeyError k) \<Rightarrow>
               emit [Print (UnexpectedStructure (KeyError k)), Print (FullData data)]
                 (events_loop w rest)
           | Inl e \<Rightarrow> ([], Some e)))"

text \<open>
  The body of the generator, run by the consumer that drains it: the request is
  posted at that moment, not when \<^verbatim>\<open>stream_response\<close> is called.
\<close>

definition stream_response :: "world \<Rightarrow> pyval \<Rightarrow> pyval list \<Rightarrow> trace \<times> pyval list" where
  "stream_response w payload sent =
     (case post w payload sent of
        (r, sent') \<Rightarrow>
          (if status_code r = 200 then (events_loop w (events r), sent')
           else (([], Some (Exception (''Error: '' @ str_nat (status_code r) @ '' - '' @
                                       body_text r))), sent')))"

definition fragments :: "trace \<Rightarrow> pyval list" where
  "fragments t = concat (map (\<lambda>a. case a of Yield v \<Rightarrow> [v] | Print l \<Rightarrow> []) (fst t))"

definition printed :: "trace \<Rightarrow> log_line list" where
  "printed t = concat (map (\<lambda>a. case a of Yield v \<Rightarrow> [] | Print l \<Rightarrow> [l]) (fst t))"

definition raised :: "trace \<Rightarrow> py_error option" where
  "raised t = snd t"

subsection \<open>\<^verbatim>\<open>pipe\<close>\<close>

text \<open>
  \<^verbatim>\<open>pipe\<close> returns a value, or the generator object that
  \<^verbatim>\<open>stream_response(payload)\<close> creates. Creating it runs none of its body, so the
  \<^verbatim>\<open>try\<close> of \<^verbatim>\<open>pipe\<close> is left before the body starts; the generator is
  represented by the payload it holds and is run with \<open>stream_response\<close>.
\<close>

datatype pipe_result = Returned pyval | Generator pyval

text \<open>The \<^verbatim>\<open>except Exception as e: return f"Error: {e}"\<close> of \<^verbatim>\<open>pipe\<close>.\<close>

definition error_string :: "py_error \<Rightarrow> pyval" where
  "error_string e = PStr (''Error: '' @ str_error e)"

text \<open>
  The result of \<^verbatim>\<open>pipe\<close>, the options dictionary as the call leaves it, and the
  payloads posted.
\<close>

definition pipe ::
  "world \<Rightarrow> string \<Rightarrow> string \<Rightarrow> pyval list \<Rightarrow> pydict \<Rightarrow> pyval list
     \<Rightarrow> pipe_result \<times> pydict \<times> pyval list" where
  "pipe w user_message model_id messages body0 sent =
     (let body = remove_keys body0
      in case prepare_payload w model_id messages body of
           Inl e \<Rightarrow> (Returned (error_string e), body, sent)
         | Inr payload \<Rightarrow>
             (if truthy (body_get body ''stream'' (PBool False))
              then (Generator payload, body, sent)
              else (case get_completion w payload sent of
                      (Inl e, sent') \<Rightarrow> (Returned (error_string e), body, sent')
                    | (Inr v, sent') \<Rightarrow> (Returned v, body, sent'))))"


section \<open>The notions of the specification\<close>

subsection \<open>The system message\<close>

text \<open>
  Modelled from the spec: \<^verbatim>\<open>pop_system_message\<close> is imported from
  \<^verbatim>\<open>utils.pipelines.main\<close>, which is not among the sources. The specification
  says of it: if the first message has the role \<^verbatim>\<open>system\<close>, remove it from the
  sequence and capture its content as the system text (joined to a plain string if
  it was a sequence of content parts); otherwise the system text is absent. How a
  sequence is joined is not said, so the joining is a parameter.
\<close>

definition pop_system_message_spec ::
  "(pyval \<Rightarrow> string) \<Rightarrow> pyval list \<Rightarrow> string option \<times> pyval list" where
  "pop_system_message_spec join messages =
     (case messages of
        [] \<Rightarrow> (None, [])
      | first # rest \<Rightarrow>
          (case first of
             PDict d \<Rightarrow>
               (if map_of d ''role'' = Some (PStr ''system'')
                then (Some (case map_of d ''content'' of
                              Some (PStr s) \<Rightarrow> s
                            | Some c \<Rightarrow> join c
                            | None \<Rightarrow> []),
                      rest)
                else (None, messages))
           | _ \<Rightarrow> (None, messages)))"

text \<open>The entry of a key in a payload, and the role of a message.\<close>

definition payload_entry :: "pyval \<Rightarrow> string \<Rightarrow> pyval option" where
  "payload_entry payload k = (case payload of PDict d \<Rightarrow> map_of d k | _ \<Rightarrow> None)"

definition has_system_role :: "pyval \<Rightarrow> bool" where
  "has_system_role message = (payload_entry message ''role'' = Some (PStr ''system''))"

subsection \<open>Content parts and the image limits\<close>

text \<open>The content parts of a message whose content is a sequence, and those of a request.\<close>

definition parts_of :: "pyval \<Rightarrow> pyval list" where
  "parts_of message =
     (case payload_entry message ''content'' of
        Some (PList items) \<Rightarrow> items
      | _ \<Rightarrow> [])"

definition all_parts :: "pyval list \<Rightarrow> pyval list" where
  "all_parts messages = concat (map parts_of messages)"

definition part_type :: "pyval \<Rightarrow> pyval option" where
  "part_type item = payload_entry item ''type''"

definition is_image_part :: "pyval \<Rightarrow> bool" where
  "is_image_part item = (part_type item = Some (PStr ''image_url''))"

definition is_text_part :: "pyval \<Rightarrow> bool" where
  "is_text_part item = (part_type item = Some (PStr ''text''))"

definition image_url_of :: "pyval \<Rightarrow> string option" where
  "image_url_of item =
     (case payload_entry item ''image_url'' of
        Some image_data \<Rightarrow>
          (case payload_entry image_data ''url'' of
             Some (PStr url) \<Rightarrow> Some url
           | _ \<Rightarrow> None)
      | None \<Rightarrow> None)"

text \<open>
  The estimated size of an image: three quarters of the length of the base64 payload
  (what follows the first comma) for an inline image, 0 for an image given by URL.
\<close>

definition estimated_size :: "string \<Rightarrow> rat" where
  "estimated_size url =
     (if starts_with url ''data:image''
      then of_nat (length (tl (dropWhile (\<lambda>x. x \<noteq> CHR '','') url))) * 3 / 4
      else 0)"

definition part_size :: "pyval \<Rightarrow> rat" where
  "part_size item = (case image_url_of item of Some url \<Rightarrow> estimated_size url | None \<Rightarrow> 0)"

definition images_in :: "pyval list \<Rightarrow> nat" where
  "images_in items = length (filter is_image_part items)"

definition size_in :: "pyval list \<Rightarrow> rat" where
  "size_in items = sum_list (map part_size (filter is_image_part items))"

definition size_limit :: rat where
  "size_limit = 100 * 1024 * 1024"

text \<open>
  The two failures of the image limits. The program raises both as
  \<^verbatim>\<open>ValueError\<close>; they are told apart from other errors by their messages.
\<close>

definition image_limit_exceeded :: "py_error \<Rightarrow> bool" where
  "image_limit_exceeded e =
     (e = ValueError ''Maximum of 5 images per API call exceeded'' \<or>
      e = ValueError ''Total size of images exceeds 100 MB limit'')"

text \<open>
  Input of the expected shape. The tokenizer is asked for a text only under the
  caching model, and there it has to answer. A text part has a text, an image part has
  an \<^verbatim>\<open>image_url\<close> with a string \<^verbatim>\<open>url\<close> in which a \<^verbatim>\<open>data:image\<close> prefix is
  followed somewhere by the comma of a data URI; a part of another type is any
  dictionary with a type. A message is a dictionary with a role; its content is a
  sequence of such parts or a text.
\<close>

definition tokenizable :: "world \<Rightarrow> string \<Rightarrow> pyval \<Rightarrow> bool" where
  "tokenizable w model_id v =
     (if model_id = caching_model
      then (case get_tokens w v of Inr n \<Rightarrow> True | Inl e \<Rightarrow> False)
      else True)"

definition well_formed_part :: "world \<Rightarrow> string \<Rightarrow> pyval \<Rightarrow> bool" where
  "well_formed_part w model_id item =
     (case part_type item of
        None \<Rightarrow> False
      | Some ty \<Rightarrow>
          (if ty = PStr ''text'' then
             (case payload_entry item ''text'' of
                Some v \<Rightarrow> tokenizable w model_id v
              | None \<Rightarrow> False)
           else if ty = PStr ''image_url'' then
             (case image_url_of item of
                Some url \<Rightarrow> (if starts_with url ''data:image'' then CHR '','' \<in> set url else True)
              | None \<Rightarrow> False)
           else True))"

definition well_formed_message :: "world \<Rightarrow> string \<Rightarrow> pyval \<Rightarrow> bool" where
  "well_formed_message w model_id message =
     (payload_entry message ''role'' \<noteq> None \<and>
      (case payload_entry message ''content'' of
         Some (PList items) \<Rightarrow> list_all (well_formed_part w model_id) items
       | Some v \<Rightarrow> tokenizable w model_id v
       | None \<Rightarrow> tokenizable w model_id (PStr [])))"

text \<open>Whether a normalized part carries the cache-eligibility marker.\<close>

definition has_cache_marker :: "pyval \<Rightarrow> bool" where
  "has_cache_marker part =
     (payload_entry part ''cache_control'' = Some (PDict [(''type'', PStr ''ephemeral'')]))"

text \<open>A text part without the marker and one with it, as the provider's format has them.\<close>

definition plain_text_part :: "pyval \<Rightarrow> pyval" where
  "plain_text_part t = PDict [(''type'', PStr ''text''), (''text'', t)]"

definition marked_text_part :: "pyval \<Rightarrow> pyval" where
  "marked_text_part t =
     PDict [(''type'', PStr ''text''), (''text'', t),
            (''cache_control'', PDict [(''type'', PStr ''ephemeral'')])]"

text \<open>
  The rule of the specification for the marker: the model is the one legacy model
  that supports caching and the token count of the text is at least 1024.
\<close>

definition cache_eligible :: "world \<Rightarrow> string \<Rightarrow> pyval \<Rightarrow> bool" where
  "cache_eligible w model_id t =
     (model_id = ''claude-3-5-sonnet-20241022'' \<and>
      (case get_tokens w t of Inr n \<Rightarrow> 1024 \<le> n | Inl e \<Rightarrow> False))"

text \<open>A part whose type tag is neither \<^verbatim>\<open>text\<close> nor \<^verbatim>\<open>image_url\<close>.\<close>

definition unrecognized_part :: "pyval \<Rightarrow> bool" where
  "unrecognized_part item =
     (case part_type item of
        None \<Rightarrow> False
      | Some ty \<Rightarrow> ty \<noteq> PStr ''text'' \<and> ty \<noteq> PStr ''image_url'')"

text \<open>
  A normalized part follows the rule of the marker when it carries the marker
  exactly if it is a text part whose text is eligible.
\<close>

definition follows_marker_rule :: "world \<Rightarrow> string \<Rightarrow> pyval \<Rightarrow> bool" where
  "follows_marker_rule w model_id part =
     (has_cache_marker part =
        (is_text_part part \<and>
         (case payload_entry part ''text'' of
            Some t \<Rightarrow> cache_eligible w model_id t
          | None \<Rightarrow> False)))"

text \<open>
  A message whose content is a plain string (and whose text the tokenizer accepts when
  it is asked), and the message wrapped as the specification says: the same role, and
  one text part with the same text.
\<close>

definition plain_message :: "world \<Rightarrow> string \<Rightarrow> pyval \<Rightarrow> bool" where
  "plain_message w model_id message =
     (payload_entry message ''role'' \<noteq> None \<and>
      (case payload_entry message ''content'' of
         Some (PStr s) \<Rightarrow> tokenizable w model_id (PStr s)
       | _ \<Rightarrow> False))"

definition wrapped_unmarked :: "pyval \<Rightarrow> pyval" where
  "wrapped_unmarked message =
     (case (payload_entry message ''role'', payload_entry message ''content'') of
        (Some role, Some c) \<Rightarrow>
          PDict [(''role'', role), (''content'', PList [plain_text_part c])]
      | _ \<Rightarrow> PNone)"

definition wrapped :: "world \<Rightarrow> string \<Rightarrow> pyval \<Rightarrow> pyval" where
  "wrapped w model_id message =
     (case (payload_entry message ''role'', payload_entry message ''content'') of
        (Some role, Some c) \<Rightarrow>
          PDict [(''role'', role),
                 (''content'', PList [if cache_eligible w model_id c
                                      then marked_text_part c else plain_text_part c])]
      | _ \<Rightarrow> PNone)"

subsection \<open>Stream events\<close>

definition event_type :: "pyval \<Rightarrow> pyval option" where
  "event_type data = payload_entry data ''type''"

text \<open>The text inside the field \<open>k\<close> (\<^verbatim>\<open>content_block\<close> or \<^verbatim>\<open>delta\<close>) of an event.\<close>

definition event_text :: "pyval \<Rightarrow> string \<Rightarrow> pyval option" where
  "event_text data k =
     (case payload_entry data k of
        Some inner \<Rightarrow> payload_entry inner ''text''
      | None \<Rightarrow> None)"

text \<open>
  A well-formed event is an object with a type; a \<^verbatim>\<open>content_block_start\<close> has a
  content block with a text, a \<^verbatim>\<open>content_block_delta\<close> has a delta with a text.
\<close>

definition well_formed_event :: "pyval \<Rightarrow> bool" where
  "well_formed_event data =
     (case event_type data of
        None \<Rightarrow> False
      | Some ty \<Rightarrow>
          (if ty = PStr ''content_block_start'' then event_text data ''content_block'' \<noteq> None
           else if ty = PStr ''content_block_delta'' then event_text data ''delta'' \<noteq> None
           else True))"

text \<open>
  The table of the specification, on the parsed events: a start emits the initial
  text of its block, a delta emits its text, \<^verbatim>\<open>message_stop\<close> ends the sequence,
  any other type is ignored.
\<close>

fun expected_fragments :: "pyval list \<Rightarrow> pyval list" where
  "expected_fragments [] = []"
| "expected_fragments (data # rest) =
     (if event_type data = Some (PStr ''content_block_start'') then
        (case event_text data ''content_block'' of
           Some t \<Rightarrow> t # expected_fragments rest
         | None \<Rightarrow> expected_fragments rest)
      else if event_type data = Some (PStr ''content_block_delta'') then
        (case event_text data ''delta'' of
           Some t \<Rightarrow> t # expected_fragments rest
         | None \<Rightarrow> expected_fragments rest)
      else if event_type data = Some (PStr ''message_stop'') then []
      else expected_fragments rest)"

text \<open>The text of a sequence of fragments: the strings among them, joined in order.\<close>

fun joined :: "pyval list \<Rightarrow> string" where
  "joined [] = []"
| "joined (PStr s # rest) = s @ joined rest"
| "joined (v # rest) = joined rest"

text \<open>
  A malformed event: its body does not parse (\<^verbatim>\<open>json.loads\<close> raises), or the
  parsed body misses an expected field, that is, it is not a well-formed event. A body
  that is no object misses the type; a content block or a delta that is no object
  misses its text.
\<close>

definition malformed_event :: "world \<Rightarrow> string \<Rightarrow> bool" where
  "malformed_event w event_data =
     (case json_loads w event_data of
        Inl e \<Rightarrow> True
      | Inr data \<Rightarrow> \<not> well_formed_event data)"

text \<open>
  The events for which \<^verbatim>\<open>stream_response\<close> has a handler: \<^verbatim>\<open>json.loads\<close>
  raises \<^verbatim>\<open>json.JSONDecodeError\<close>, or a lookup in the parsed body raises
  \<^verbatim>\<open>KeyError\<close>. What the handler prints for such an event.
\<close>

definition handled_event :: "world \<Rightarrow> string \<Rightarrow> bool" where
  "handled_event w event_data =
     (case json_loads w event_data of
        Inl (JSONDecodeError m) \<Rightarrow> True
      | Inl e \<Rightarrow> False
      | Inr data \<Rightarrow>
          (case handle_data data of
             Inl (KeyError k) \<Rightarrow> True
           | _ \<Rightarrow> False))"

definition handler_output :: "world \<Rightarrow> string \<Rightarrow> action list" where
  "handler_output w event_data =
     (case json_loads w event_data of
        Inl e \<Rightarrow> [Print (FailedToParse event_data)]
      | Inr data \<Rightarrow>
          (case handle_data data of
             Inl e \<Rightarrow> [Print (UnexpectedStructure e), Print (FullData data)]
           | Inr s \<Rightarrow> []))"

text \<open>The events of a stream that parse, parsed.\<close>

definition parsed_events :: "world \<Rightarrow> string list \<Rightarrow> pyval list" where
  "parsed_events w evs =
     List.map_filter (\<lambda>e. case json_loads w e of Inr data \<Rightarrow> Some data | Inl err \<Rightarrow> None) evs"

definition parses_well_formed :: "world \<Rightarrow> string \<Rightarrow> bool" where
  "parses_well_formed w event_data =
     (case json_loads w event_data of
        Inr data \<Rightarrow> well_formed_event data
      | Inl e \<Rightarrow> False)"

text \<open>
  The full response text of a sequence of parsed events: the initial texts of the
  content blocks and the texts of the deltas, in order, up to \<^verbatim>\<open>message_stop\<close>.
\<close>

fun response_text :: "pyval list \<Rightarrow> string" where
  "response_text [] = []"
| "response_text (data # rest) =
     (if event_type data = Some (PStr ''message_stop'') then []
      else (case (if event_type data = Some (PStr ''content_block_start'')
                  then event_text data ''content_block''
                  else if event_type data = Some (PStr ''content_block_delta'')
                  then event_text data ''delta''
                  else None) of
              Some (PStr s) \<Rightarrow> s @ response_text rest
            | _ \<Rightarrow> response_text rest))"

subsection \<open>Answers of the provider\<close>

text \<open>
  A success status of HTTP is one from 200 to 299. The first text block of an answer
  is the text of the first block of its content list whose type is \<^verbatim>\<open>text\<close>.
\<close>

definition success_status :: "nat \<Rightarrow> bool" where
  "success_status code = (200 \<le> code \<and> code < 300)"

fun first_text :: "pyval list \<Rightarrow> pyval option" where
  "first_text [] = None"
| "first_text (block # blocks) =
     (if payload_entry block ''type'' = Some (PStr ''text'')
      then payload_entry block ''text''
      else first_text blocks)"

definition first_text_block :: "response \<Rightarrow> pyval option" where
  "first_text_block r =
     (case json r of
        Inl e \<Rightarrow> None
      | Inr res \<Rightarrow>
          (case payload_entry res ''content'' of
             Some (PList blocks) \<Rightarrow> first_text blocks
           | _ \<Rightarrow> None))"

subsection \<open>Example worlds\<close>

text \<open>
  Events of the provider's stream: the start of a text block, a text delta, the end
  of the message, a ping, the start of a tool-use block, which has no text, and a
  delta event whose delta is \<^verbatim>\<open>null\<close>.
\<close>

definition start_hello :: string where
  \<open>start_hello =
     ''{"type": "content_block_start", "index": 0, "content_block": {"type": "text", "text": "Hello"}}''\<close>

definition delta_world :: string where
  \<open>delta_world =
     ''{"type": "content_block_delta", "index": 0, "delta": {"type": "text_delta", "text": " world"}}''\<close>

definition stop_event :: string where
  \<open>stop_event = ''{"type": "message_stop"}''\<close>

definition ping_event :: string where
  \<open>ping_event = ''{"type": "ping"}''\<close>

definition tool_use_start :: string where
  \<open>tool_use_start =
     ''{"type": "content_block_start", "index": 1, "content_block": {"type": "tool_use"}}''\<close>

definition null_delta :: string where
  \<open>null_delta = ''{"type": "content_block_delta", "index": 0, "delta": null}''\<close>

text \<open>
  A small table for \<^verbatim>\<open>json.loads\<close>: what these six strings parse to. Every other
  string is taken not to be JSON at its first character.
\<close>

definition example_loads :: "string \<Rightarrow> py_error + pyval" where
  "example_loads s =
     (if s = start_hello
      then Inr (PDict [(''type'', PStr ''content_block_start''), (''index'', PInt 0),
                       (''content_block'', PDict [(''type'', PStr ''text''),
                                                  (''text'', PStr ''Hello'')])])
      else if s = delta_world
      then Inr (PDict [(''type'', PStr ''content_block_delta''), (''index'', PInt 0),
                       (''delta'', PDict [(''type'', PStr ''text_delta''),
                                          (''text'', PStr '' world'')])])
      else if s = stop_event
      then Inr (PDict [(''type'', PStr ''message_stop'')])
      else if s = ping_event
      then Inr (PDict [(''type'', PStr ''ping'')])
      else if s = tool_use_start
      then Inr (PDict [(''type'', PStr ''content_block_start''), (''index'', PInt 1),
                       (''content_block'', PDict [(''type'', PStr ''tool_use'')])])
      else if s = null_delta
      then Inr (PDict [(''type'', PStr ''content_block_delta''), (''index'', PInt 0),
                       (''delta'', PNone)])
      else Inl (JSONDecodeError ''Expecting value: line 1 column 1 (char 0)''))"

definition hello_events :: "string list" where
  "hello_events = [start_hello, delta_world, stop_event]"

text \<open>
  Two answers of a provider: one with status 200 whose first content block is a
  tool-use block and whose second block is a text, and one with status 201 and an
  ordinary body.
\<close>

definition tool_first_answer :: response where
  \<open>tool_first_answer =
     \<lparr>status_code = 200,
      body_text = ''{"content": [{"type": "tool_use", "id": "toolu_1", "name": "lookup", "input": {}}, {"type": "text", "text": "late"}]}'',
      json = Inr (PDict [(''content'',
                          PList [PDict [(''type'', PStr ''tool_use''), (''id'', PStr ''toolu_1''),
                                        (''name'', PStr ''lookup''), (''input'', PDict [])],
                                 PDict [(''type'', PStr ''text''), (''text'', PStr ''late'')]])]),
      events = []\<rparr>\<close>

definition created_answer :: response where
  \<open>created_answer =
     \<lparr>status_code = 201,
      body_text = ''{"content": [{"type": "text", "text": "Hi"}]}'',
      json = Inr (PDict [(''content'',
                          PList [PDict [(''type'', PStr ''text''), (''text'', PStr ''Hi'')]])]),
      events = []\<rparr>\<close>

text \<open>
  A world whose provider always gives the answer \<open>r\<close>, whose tokenizer makes one
  token of each character of a string, and whose \<^verbatim>\<open>pop_system_message\<close> finds no
  system message.
\<close>

definition example_world :: "response \<Rightarrow> world" where
  "example_world r =
     \<lparr>pop_system_message = (\<lambda>messages. (None, messages)),
      encode = (\<lambda>v. case v of
                       PStr s \<Rightarrow> Inr (map of_char s)
                     | _ \<Rightarrow> Inl (TypeError ''expected string or buffer'')),
      requests_post = (\<lambda>payload. r),
      json_loads = example_loads\<rparr>"

text \<open>
  An inline image part whose base64 payload has \<open>n\<close> characters, an image part given
  by URL, and a user message with a sequence of parts.
\<close>

definition inline_image :: "nat \<Rightarrow> pyval" where
  "inline_image n =
     PDict [(''type'', PStr ''image_url''),
            (''image_url'',
             PDict [(''url'', PStr (''data:image/png;base64,'' @ replicate n CHR ''A''))])]"

definition remote_image :: pyval where
  "remote_image =
     PDict [(''type'', PStr ''image_url''),
            (''image_url'', PDict [(''url'', PStr ''https://example.com/cat.png'')])]"

definition user_turn :: "pyval list \<Rightarrow> pyval" where
  "user_turn parts = PDict [(''role'', PStr ''user''), (''content'', PList parts)]"

section \<open>The options dictionary\<close>

lemma remove_keys_filter:
  "remove_keys body = filter (\<lambda>kv. fst kv \<notin> {''user'', ''chat_id'', ''title''}) body"
  by (induction body) (auto simp: remove_keys_def AList.delete_eq)

lemma pipe_body: "fst (snd (pipe w user_message model_id messages body sent)) = remove_keys body"
  by (simp add: pipe_def Let_def split: sum.splits prod.splits)

lemma map_of_filter_keys:
  "map_of (filter (\<lambda>kv. fst kv \<notin> K) body) k = (if k \<in> K then None else map_of body k)"
  by (induction body) auto

text \<open>
  Claim C9. Every call of \<^verbatim>\<open>pipe\<close> leaves the caller's options dictionary with the
  keys \<^verbatim>\<open>user\<close>, \<^verbatim>\<open>chat_id\<close> and \<^verbatim>\<open>title\<close> removed and with every other
  entry as it was, in the same order: the dictionary after the call is the one before
  it without the entries of these three keys, and a lookup of any other key gives what
  it gave before. This holds on every path, also when the call ends in an error
  string.
\<close>

theorem pipe_removes_only_three_keys:
  "fst (snd (pipe w user_message model_id messages body sent)) =
     filter (\<lambda>kv. fst kv \<notin> {''user'', ''chat_id'', ''title''}) body \<and>
   map_of (fst (snd (pipe w user_message model_id messages body sent))) k =
     (if k \<in> {''user'', ''chat_id'', ''title''} then None else map_of body k)"
  by (simp only: pipe_body remove_keys_filter map_of_filter_keys)


theorem pipe_removes_only_three_keys_witness:
  "\<forall>w. fst (snd (pipe w ''hi'' ''claude-opus-4-20250514'' []
       [(''user'', PDict [(''name'', PStr ''ann'')]), (''max_tokens'', PInt 100),
        (''title'', PStr ''t''), (''stream'', PBool False)] [])) =
     [(''max_tokens'', PInt 100), (''stream'', PBool False)]"
  using pipe_removes_only_three_keys [of _ "''hi''" "''claude-opus-4-20250514''" "[]"
      "[(''user'', PDict [(''name'', PStr ''ann'')]), (''max_tokens'', PInt 100),
        (''title'', PStr ''t''), (''stream'', PBool False)]" "[]"]
  by simp

section \<open>The event loop of the streaming path\<close>

lemma subscript_entry: "payload_entry v k = Some x \<Longrightarrow> subscript v k = Inr x"
  by (cases v) (auto simp: payload_entry_def)

lemma handle_data_well_formed:
  "well_formed_event d \<Longrightarrow>
   handle_data d =
     (if event_type d = Some (PStr ''content_block_start'') then
        (case event_text d ''content_block'' of Some t \<Rightarrow> Inr (Emit t) | None \<Rightarrow> Inr Pass)
      else if event_type d = Some (PStr ''content_block_delta'') then
        (case event_text d ''delta'' of Some t \<Rightarrow> Inr (Emit t) | None \<Rightarrow> Inr Pass)
      else if event_type d = Some (PStr ''message_stop'') then Inr Break
      else Inr Pass)"
  by (auto simp: well_formed_event_def handle_data_def event_type_def event_text_def
        subscript_entry split: option.splits if_splits)

lemma parsed_events_Nil: "parsed_events w [] = []"
  by (simp add: parsed_events_def)

lemma parsed_events_Cons:
  "parsed_events w (e # evs) =
     (case json_loads w e of
        Inl err \<Rightarrow> parsed_events w evs
      | Inr d \<Rightarrow> d # parsed_events w evs)"
  by (simp add: parsed_events_def split: sum.splits)

lemma events_loop_well_formed:
  "list_all (parses_well_formed w) evs \<Longrightarrow>
   events_loop w evs = (map Yield (expected_fragments (parsed_events w evs)), None)"
proof (induction evs)
  case Nil
  show ?case by (simp add: parsed_events_Nil)
next
  case (Cons e evs)
  from Cons.prems obtain d where d: "json_loads w e = Inr d" "well_formed_event d"
    by (auto simp: parses_well_formed_def split: sum.splits)
  from Cons have ih:
    "events_loop w evs = (map Yield (expected_fragments (parsed_events w evs)), None)"
    by simp
  show ?case
    using d ih
    by (auto simp: parsed_events_Cons handle_data_well_formed emit_def well_formed_event_def
          split: option.splits)
qed

lemma fragments_map_Yield: "fragments (map Yield xs, r) = xs"
  by (induction xs) (auto simp: fragments_def)

lemma joined_expected: "joined (expected_fragments ds) = response_text ds"
  by (induction ds) (auto split: option.splits pyval.splits)

lemma fragments_emit: "fragments (emit as t) = fragments (as, None) @ fragments t"
  by (simp add: fragments_def emit_def)

lemma raised_emit: "raised (emit as t) = raised t"
  by (simp add: raised_def emit_def)

text \<open>
  Claim C4. When the provider answers with status 200 and every event of the stream
  is well formed, the generator yields exactly the fragments that the table of the
  specification gives for the parsed events, in their order, and then ends without
  an exception: a start yields the initial text of its block, a delta yields its text,
  an event of any other type yields nothing, and \<^verbatim>\<open>message_stop\<close> ends the
  sequence. The fragments joined in order are the full response text. For the stream
  of a start with the text Hello, a delta with the text " world" and
  \<^verbatim>\<open>message_stop\<close> the fragments are Hello and " world".
\<close>

theorem stream_response_yields_expected_fragments:
  assumes "status_code (requests_post w payload) = 200"
    and "list_all (parses_well_formed w) (events (requests_post w payload))"
  shows "fragments (fst (stream_response w payload sent)) =
           expected_fragments (parsed_events w (events (requests_post w payload))) \<and>
         raised (fst (stream_response w payload sent)) = None \<and>
         joined (fragments (fst (stream_response w payload sent))) =
           response_text (parsed_events w (events (requests_post w payload)))"
  using assms
  by (simp add: stream_response_def post_def events_loop_well_formed fragments_map_Yield
        raised_def joined_expected)

lemmas example_events =
  start_hello_def delta_world_def stop_event_def ping_event_def tool_use_start_def
  null_delta_def example_loads_def

lemma hello_events_well_formed:
  "list_all (parses_well_formed (example_world r)) hello_events"
  by (simp add: hello_events_def parses_well_formed_def example_world_def example_events
        well_formed_event_def event_type_def event_text_def payload_entry_def)

lemma hello_events_expected:
  "expected_fragments (parsed_events (example_world r) hello_events) =
     [PStr ''Hello'', PStr '' world'']"
  by (simp add: hello_events_def parsed_events_def example_world_def
        example_events event_type_def event_text_def payload_entry_def)

lemma busy_events_well_formed:
  "list_all (parses_well_formed (example_world r))
     [ping_event, start_hello, ping_event, delta_world, stop_event, delta_world]"
  by (simp add: parses_well_formed_def example_world_def example_events
        well_formed_event_def event_type_def event_text_def payload_entry_def)

lemma busy_events_expected:
  "expected_fragments (parsed_events (example_world r)
     [ping_event, start_hello, ping_event, delta_world, stop_event, delta_world]) =
     [PStr ''Hello'', PStr '' world'']"
  by (simp add: parsed_events_def example_world_def example_events event_type_def
        event_text_def payload_entry_def)

theorem stream_response_yields_expected_fragments_witness:
  "\<forall>payload sent.
     fst (stream_response
        (example_world \<lparr>status_code = 200, body_text = [], json = Inr PNone,
                        events = hello_events\<rparr>) payload sent) =
       ([Yield (PStr ''Hello''), Yield (PStr '' world'')], None) \<and>
     fragments (fst (stream_response
        (example_world \<lparr>status_code = 200, body_text = [], json = Inr PNone,
                        events = hello_events\<rparr>) payload sent)) =
       [PStr ''Hello'', PStr '' world''] \<and>
     joined (fragments (fst (stream_response
        (example_world \<lparr>status_code = 200, body_text = [], json = Inr PNone,
                        events = hello_events\<rparr>) payload sent))) = ''Hello world'' \<and>
     fragments (fst (stream_response
        (example_world \<lparr>status_code = 200, body_text = [], json = Inr PNone,
           events = [ping_event, start_hello, ping_event, delta_world, stop_event,
                     delta_world]\<rparr>) payload sent)) =
       [PStr ''Hello'', PStr '' world'']"
proof (intro allI)
  fix payload :: pyval and sent :: "pyval list"
  let ?r = "\<lparr>status_code = 200, body_text = [], json = Inr PNone, events = hello_events\<rparr>"
  let ?busy = "[ping_event, start_hello, ping_event, delta_world, stop_event, delta_world]"
  let ?q = "\<lparr>status_code = 200, body_text = [], json = Inr PNone, events = ?busy\<rparr>"
  have answer: "requests_post (example_world r) payload = r" for r
    by (simp add: example_world_def)
  have ok: "status_code (requests_post (example_world ?r) payload) = 200"
    and ok': "status_code (requests_post (example_world ?q) payload) = 200"
    by (simp_all add: answer)
  have wf: "list_all (parses_well_formed (example_world ?r))
              (events (requests_post (example_world ?r) payload))"
    by (simp add: answer hello_events_well_formed)
  have wf': "list_all (parses_well_formed (example_world ?q))
              (events (requests_post (example_world ?q) payload))"
    using busy_events_well_formed [of ?q] by (simp add: answer)
  have whole: "fst (stream_response (example_world ?r) payload sent) =
      ([Yield (PStr ''Hello''), Yield (PStr '' world'')], None)"
    using events_loop_well_formed [OF hello_events_well_formed, of ?r]
    by (simp add: stream_response_def post_def answer hello_events_expected)
  have a: "fragments (fst (stream_response (example_world ?r) payload sent)) =
             [PStr ''Hello'', PStr '' world''] \<and>
           joined (fragments (fst (stream_response (example_world ?r) payload sent))) =
             ''Hello world''"
    using stream_response_yields_expected_fragments [OF ok wf, of sent]
    by (simp add: answer hello_events_expected)
  have b: "fragments (fst (stream_response (example_world ?q) payload sent)) =
             [PStr ''Hello'', PStr '' world'']"
    using stream_response_yields_expected_fragments [OF ok' wf', of sent]
      busy_events_expected [of ?q]
    by (simp add: answer)
  show "fst (stream_response (example_world ?r) payload sent) =
          ([Yield (PStr ''Hello''), Yield (PStr '' world'')], None) \<and>
        fragments (fst (stream_response (example_world ?r) payload sent)) =
          [PStr ''Hello'', PStr '' world''] \<and>
        joined (fragments (fst (stream_response (example_world ?r) payload sent))) =
          ''Hello world'' \<and>
        fragments (fst (stream_response (example_world ?q) payload sent)) =
          [PStr ''Hello'', PStr '' world'']"
    using whole a b by simp
qed

text \<open>
  Events with a handler. An event at which \<^verbatim>\<open>json.loads\<close> raises
  \<^verbatim>\<open>json.JSONDecodeError\<close> or a lookup raises \<^verbatim>\<open>KeyError\<close> is printed and
  skipped: the loop goes on with the events that follow, and the stream with such an
  event yields the same fragments and ends in the same way as the stream without it.
\<close>

lemma events_loop_handled:
  "handled_event w e \<Longrightarrow>
   events_loop w (e # later) = emit (handler_output w e) (events_loop w later)"
  by (auto simp: handled_event_def handler_output_def
        split: sum.splits py_error.splits step.splits)

lemma handler_output_prints:
  "handled_event w e \<Longrightarrow>
   handler_output w e \<noteq> [] \<and> fragments (handler_output w e, None) = []"
  by (auto simp: handled_event_def handler_output_def fragments_def
        split: sum.splits py_error.splits step.splits)

lemma events_loop_skip:
  assumes "fragments (events_loop w (e # later)) = fragments (events_loop w later)"
    and "raised (events_loop w (e # later)) = raised (events_loop w later)"
  shows "fragments (events_loop w (earlier @ e # later)) = fragments (events_loop w (earlier @ later)) \<and>
         raised (events_loop w (earlier @ e # later)) = raised (events_loop w (earlier @ later))"
proof (induction earlier)
  case Nil
  show ?case using assms by simp
next
  case (Cons x earlier)
  then show ?case
    by (auto simp: fragments_emit raised_emit split: sum.splits step.splits py_error.splits)
qed

lemma handled_event_is_skipped:
  assumes "handled_event w e"
  shows "fragments (events_loop w (earlier @ e # later)) =
           fragments (events_loop w (earlier @ later)) \<and>
         raised (events_loop w (earlier @ e # later)) =
           raised (events_loop w (earlier @ later))"
proof -
  have step: "events_loop w (e # later) = emit (handler_output w e) (events_loop w later)"
    using assms by (rule events_loop_handled)
  have log: "handler_output w e \<noteq> [] \<and> fragments (handler_output w e, None) = []"
    using assms by (rule handler_output_prints)
  have f: "fragments (events_loop w (e # later)) = fragments (events_loop w later)"
    using step log by (simp add: fragments_emit)
  have r: "raised (events_loop w (e # later)) = raised (events_loop w later)"
    using step by (simp add: raised_emit)
  show ?thesis using f r by (rule events_loop_skip)
qed

lemma handled_event_malformed: "handled_event w e \<Longrightarrow> malformed_event w e"
  by (auto simp: handled_event_def malformed_event_def handle_data_well_formed
        split: sum.splits py_error.splits option.splits if_splits)

text \<open>
  A malformed event without a handler. An exception that is neither of the two ends
  the generator at the event: nothing of what follows is yielded.
\<close>

lemma events_loop_unhandled:
  assumes "json_loads w e = Inr data" and "handle_data data = Inl err"
    and "\<nexists>k. err = KeyError k"
  shows "events_loop w (e # later) = ([], Some err)"
  using assms by (cases err) simp_all

text \<open>
  Claim C5. A malformed event should be logged and skipped without ending the stream.
  The loop does so where \<^verbatim>\<open>json.loads\<close> raises \<^verbatim>\<open>json.JSONDecodeError\<close> and
  where a key is absent from an object (\<^verbatim>\<open>KeyError\<close>), but not for a parsed body
  in which a value that should be an object is not one. The event
  \<^verbatim>\<open>{"type": "content_block_delta", "index": 0, "delta": null}\<close> parses and
  misses the text of its delta, so it is malformed. In the stream of the start with
  the text Hello, this event, the delta with the text " world" and
  \<^verbatim>\<open>message_stop\<close>, the lookup of the text raises \<^verbatim>\<open>TypeError\<close>, for which
  there is no handler: the generator yields Hello and then raises to the consumer, and
  the fragment " world" of the well-formed event after it is lost. Without the
  malformed event the same stream yields both fragments and ends normally.
\<close>

theorem malformed_event_ends_the_stream:
  "malformed_event (example_world r) null_delta \<and>
   events_loop (example_world r) [start_hello, null_delta, delta_world, stop_event] =
     ([Yield (PStr ''Hello'')],
      Some (TypeError (quoted ''NoneType'' @ '' object is not subscriptable''))) \<and>
   events_loop (example_world r) [start_hello, delta_world, stop_event] =
     ([Yield (PStr ''Hello''), Yield (PStr '' world'')], None) \<and>
   (status_code r = 200 \<and> events r = [start_hello, null_delta, delta_world, stop_event] \<longrightarrow>
      fragments (fst (stream_response (example_world r) payload sent)) = [PStr ''Hello''] \<and>
      raised (fst (stream_response (example_world r) payload sent)) =
        Some (TypeError (quoted ''NoneType'' @ '' object is not subscriptable'')))"
proof -
  have m: "malformed_event (example_world r) null_delta"
    by (simp add: malformed_event_def example_world_def example_events null_delta_def
          well_formed_event_def event_type_def event_text_def payload_entry_def)
  have bad: "events_loop (example_world r) [start_hello, null_delta, delta_world, stop_event] =
     ([Yield (PStr ''Hello'')],
      Some (TypeError (quoted ''NoneType'' @ '' object is not subscriptable'')))"
    by (simp add: example_world_def example_events null_delta_def handle_data_def emit_def)
  have good: "events_loop (example_world r) [start_hello, delta_world, stop_event] =
     ([Yield (PStr ''Hello''), Yield (PStr '' world'')], None)"
    by (simp add: example_world_def example_events null_delta_def handle_data_def emit_def)
  have whole: "fragments (fst (stream_response (example_world r) payload sent)) =
        [PStr ''Hello''] \<and>
      raised (fst (stream_response (example_world r) payload sent)) =
        Some (TypeError (quoted ''NoneType'' @ '' object is not subscriptable''))"
    if "status_code r = 200"
      and "events r = [start_hello, null_delta, delta_world, stop_event]"
    using that bad
    by (simp add: stream_response_def post_def fragments_def raised_def example_world_def)
  show ?thesis using m bad good whole by blast
qed

theorem malformed_event_ends_the_stream_witness:
  "\<forall>payload sent.
     fst (stream_response
       (example_world \<lparr>status_code = 200, body_text = [], json = Inr PNone,
                       events = [start_hello, null_delta, delta_world, stop_event]\<rparr>)
       payload sent) =
     ([Yield (PStr ''Hello'')],
      Some (TypeError (quoted ''NoneType'' @ '' object is not subscriptable'')))"
proof (intro allI)
  fix payload :: pyval and sent :: "pyval list"
  let ?r = "\<lparr>status_code = 200, body_text = [], json = Inr PNone,
             events = [start_hello, null_delta, delta_world, stop_event]\<rparr>"
  have "fst (stream_response (example_world ?r) payload sent) =
          events_loop (example_world ?r) [start_hello, null_delta, delta_world, stop_event]"
    by (simp add: stream_response_def post_def example_world_def)
  then show "fst (stream_response (example_world ?r) payload sent) =
     ([Yield (PStr ''Hello'')],
      Some (TypeError (quoted ''NoneType'' @ '' object is not subscriptable'')))"
    using malformed_event_ends_the_stream [of ?r payload sent] by simp
qed

text \<open>
  The two handled kinds at work: a start of a tool-use block, which has no text, and
  a body that is not JSON are printed and skipped.
\<close>

lemma tool_use_start_handled: "handled_event (example_world r) tool_use_start"
  by (simp add: handled_event_def example_world_def example_events handle_data_def quoted_def)

lemma not_json_handled: "handled_event (example_world r) ''<html>502</html>''"
  by (simp add: handled_event_def example_world_def example_events)

lemma handled_events_example:
  "fragments (events_loop (example_world r)
      [tool_use_start, start_hello, ''<html>502</html>'', delta_world, stop_event]) =
     [PStr ''Hello'', PStr '' world''] \<and>
   raised (events_loop (example_world r)
      [tool_use_start, start_hello, ''<html>502</html>'', delta_world, stop_event]) = None \<and>
   printed (events_loop (example_world r)
      [tool_use_start, start_hello, ''<html>502</html>'', delta_world, stop_event]) =
     [UnexpectedStructure (KeyError (quoted ''text'')),
      FullData (PDict [(''type'', PStr ''content_block_start''), (''index'', PInt 1),
                       (''content_block'', PDict [(''type'', PStr ''tool_use'')])]),
      FailedToParse ''<html>502</html>'']"
  by (simp add: example_world_def example_events handle_data_def emit_def fragments_def
        raised_def printed_def quoted_def)

section \<open>The non-streaming path and the top-level entry point\<close>

lemma get_completion_sent: "snd (get_completion w payload sent) = sent @ [payload]"
  by (simp add: get_completion_def post_def)

lemma get_completion_result:
  "fst (get_completion w payload sent) = completion_of (requests_post w payload)"
  by (simp add: get_completion_def post_def)

lemma completion_of_failure:
  "status_code r \<noteq> 200 \<Longrightarrow>
   completion_of r =
     Inl (Exception (''Error: '' @ str_nat (status_code r) @ '' - '' @ body_text r))"
  by (simp add: completion_of_def)

lemma completion_of_first_block:
  assumes "status_code r = 200" and "json r = Inr res"
    and "payload_entry res ''content'' = Some (PList (block # blocks))"
    and "payload_entry block ''text'' = Some t"
  shows "completion_of r = Inr t"
proof -
  from assms(3) obtain d where res: "res = PDict d" "map_of d ''content'' = Some (PList (block # blocks))"
    by (cases res) (auto simp: payload_entry_def)
  from assms(4) have "subscript block ''text'' = Inr t"
    by (rule subscript_entry)
  with assms(1,2) res show ?thesis
    by (simp add: completion_of_def)
qed

lemma completion_of_no_content:
  assumes "status_code r = 200" and "json r = Inr (PDict d)"
    and "case map_of d ''content'' of None \<Rightarrow> True | Some c \<Rightarrow> \<not> truthy c"
  shows "completion_of r = Inr (PStr [])"
  using assms by (auto simp: completion_of_def split: option.splits)

lemma completion_of_first_block_without_text:
  assumes "status_code r = 200" and "json r = Inr res"
    and "payload_entry res ''content'' = Some (PList (PDict b # blocks))"
    and "map_of b ''text'' = None"
  shows "completion_of r = Inl (KeyError (quoted ''text''))"
proof -
  from assms(3) obtain d where res: "res = PDict d"
    "map_of d ''content'' = Some (PList (PDict b # blocks))"
    by (cases res) (auto simp: payload_entry_def)
  with assms(1,2,4) show ?thesis
    by (simp add: completion_of_def)
qed

text \<open>
  Claim C6, as amended. \<^verbatim>\<open>get_completion\<close> posts the payload once: the payloads
  sent after the call are those sent before it and the payload. When the status of
  the answer is exactly 200 and the body has a content list, the result is the text
  of the first block of the list, and the call raises \<^verbatim>\<open>KeyError\<close> when that
  block is an object without a text, whatever the later blocks are; when the body is
  an object without content (no \<^verbatim>\<open>content\<close> key, or an empty or otherwise false
  one), the result is the empty string. When the status is any other one, also
  another status from 200 to 299, the call raises an exception whose message carries
  the status and the body of the answer.
\<close>

theorem get_completion_contract:
  assumes "requests_post w payload = r"
  shows "snd (get_completion w payload sent) = sent @ [payload] \<and>
         (status_code r \<noteq> 200 \<longrightarrow>
            fst (get_completion w payload sent) =
              Inl (Exception (''Error: '' @ str_nat (status_code r) @ '' - '' @ body_text r))) \<and>
         (status_code r = 200 \<and> json r = Inr res \<and>
          payload_entry res ''content'' = Some (PList (block # blocks)) \<and>
          payload_entry block ''text'' = Some t \<longrightarrow>
            fst (get_completion w payload sent) = Inr t) \<and>
         (status_code r = 200 \<and> json r = Inr res \<and>
          payload_entry res ''content'' = Some (PList (PDict b # blocks)) \<and>
          map_of b ''text'' = None \<longrightarrow>
            fst (get_completion w payload sent) = Inl (KeyError (quoted ''text''))) \<and>
         (status_code r = 200 \<and> json r = Inr (PDict d) \<and>
          (case map_of d ''content'' of None \<Rightarrow> True | Some c \<Rightarrow> \<not> truthy c) \<longrightarrow>
            fst (get_completion w payload sent) = Inr (PStr []))"
  using assms completion_of_failure [of r] completion_of_first_block [of r res block blocks t]
    completion_of_no_content [of r d] completion_of_first_block_without_text [of r res b blocks]
  by (simp add: get_completion_sent get_completion_result)

theorem get_completion_contract_witness:
  "\<forall>payload sent.
     get_completion
       (example_world \<lparr>status_code = 200, body_text = [],
          json = Inr (PDict [(''id'', PStr ''msg_1''),
                             (''content'', PList [PDict [(''type'', PStr ''text''),
                                                         (''text'', PStr ''Hi there'')]])]),
          events = []\<rparr>) payload sent = (Inr (PStr ''Hi there''), sent @ [payload]) \<and>
     get_completion
       (example_world \<lparr>status_code = 200, body_text = [],
          json = Inr (PDict [(''id'', PStr ''msg_2''), (''content'', PList [])]),
          events = []\<rparr>) payload sent = (Inr (PStr []), sent @ [payload]) \<and>
     get_completion
       (example_world \<lparr>status_code = 529, body_text = ''overloaded'',
          json = Inr PNone, events = []\<rparr>) payload sent =
       (Inl (Exception ''Error: 529 - overloaded''), sent @ [payload]) \<and>
     get_completion (example_world tool_first_answer) payload sent =
       (Inl (KeyError (quoted ''text'')), sent @ [payload])"
proof (intro allI)
  fix payload :: pyval and sent :: "pyval list"
  let ?b1 = "PDict [(''type'', PStr ''text''), (''text'', PStr ''Hi there'')]"
  let ?d1 = "[(''id'', PStr ''msg_1''), (''content'', PList [?b1])]"
  let ?r1 = "\<lparr>status_code = 200, body_text = [], json = Inr (PDict ?d1), events = []\<rparr>"
  let ?d2 = "[(''id'', PStr ''msg_2''), (''content'', PList [])]"
  let ?r2 = "\<lparr>status_code = 200, body_text = [], json = Inr (PDict ?d2), events = []\<rparr>"
  let ?r3 = "\<lparr>status_code = 529, body_text = ''overloaded'', json = Inr PNone, events = []\<rparr>"
  let ?tool = "[(''type'', PStr ''tool_use''), (''id'', PStr ''toolu_1''),
                (''name'', PStr ''lookup''), (''input'', PDict [])]"
  let ?late = "PDict [(''type'', PStr ''text''), (''text'', PStr ''late'')]"
  have p: "\<And>r. requests_post (example_world r) payload = r"
    by (simp add: example_world_def)
  have n: "str_nat 529 = ''529''"
    by (simp add: str_nat.simps digit_char_def)
  have a: "get_completion (example_world ?r1) payload sent =
             (Inr (PStr ''Hi there''), sent @ [payload])"
    using get_completion_contract [OF p, of ?r1 sent "PDict ?d1" ?b1 "[]" "PStr ''Hi there''"
        "[]" ?d1]
    by (simp add: payload_entry_def prod_eq_iff)
  have b: "get_completion (example_world ?r2) payload sent = (Inr (PStr []), sent @ [payload])"
    using get_completion_contract [OF p, of ?r2 sent "PDict ?d2" ?b1 "[]" "PStr ''Hi there''"
        "[]" ?d2]
    by (simp add: payload_entry_def prod_eq_iff)
  have c: "get_completion (example_world ?r3) payload sent =
             (Inl (Exception ''Error: 529 - overloaded''), sent @ [payload])"
    using get_completion_contract [OF p, of ?r3 sent "PDict ?d2" ?b1 "[]" "PStr ''Hi there''"
        "[]" ?d2]
    by (simp add: n prod_eq_iff)
  have d: "get_completion (example_world tool_first_answer) payload sent =
             (Inl (KeyError (quoted ''text'')), sent @ [payload])"
    using get_completion_contract [OF p, of tool_first_answer sent
        "PDict [(''content'', PList [PDict ?tool, ?late])]" ?b1 "[?late]" "PStr ''Hi there''"
        ?tool ?d2]
    by (simp add: tool_first_answer_def payload_entry_def prod_eq_iff)
  show "get_completion (example_world ?r1) payload sent =
          (Inr (PStr ''Hi there''), sent @ [payload]) \<and>
        get_completion (example_world ?r2) payload sent = (Inr (PStr []), sent @ [payload]) \<and>
        get_completion (example_world ?r3) payload sent =
          (Inl (Exception ''Error: 529 - overloaded''), sent @ [payload]) \<and>
        get_completion (example_world tool_first_answer) payload sent =
          (Inl (KeyError (quoted ''text'')), sent @ [payload])"
    using a b c d by simp
qed

text \<open>
  The claim as it is stated, with any success status and the first text block, fails
  at two answers. The first has status 200 and the content of a tool-use block
  followed by a text block: its first text block is the text "late", and the call
  raises \<^verbatim>\<open>KeyError\<close>, because the first block has no text. The second has
  the success status 201 and a content whose first text block is "Hi", and the call
  raises the exception of the status check.
\<close>

theorem get_completion_contract_counterexample:
  "success_status (status_code tool_first_answer) \<and>
   first_text_block tool_first_answer = Some (PStr ''late'') \<and>
   fst (get_completion (example_world tool_first_answer) (PDict []) []) =
     Inl (KeyError (quoted ''text'')) \<and>
   success_status (status_code created_answer) \<and>
   first_text_block created_answer = Some (PStr ''Hi'') \<and>
   fst (get_completion (example_world created_answer) (PDict []) []) =
     Inl (Exception (''Error: 201 - '' @ body_text created_answer))"
proof -
  have n: "str_nat 201 = ''201''"
    by (simp add: str_nat.simps digit_char_def)
  have a: "success_status (status_code tool_first_answer) \<and>
           first_text_block tool_first_answer = Some (PStr ''late'')"
    by (simp add: success_status_def first_text_block_def tool_first_answer_def
          payload_entry_def)
  have b: "fst (get_completion (example_world tool_first_answer) (PDict []) []) =
             Inl (KeyError (quoted ''text''))"
    by (simp add: get_completion_def post_def example_world_def completion_of_def
          tool_first_answer_def)
  have c: "success_status (status_code created_answer) \<and>
           first_text_block created_answer = Some (PStr ''Hi'')"
    by (simp add: success_status_def first_text_block_def created_answer_def
          payload_entry_def)
  have d: "fst (get_completion (example_world created_answer) (PDict []) []) =
             Inl (Exception (''Error: 201 - '' @ body_text created_answer))"
    by (simp add: get_completion_def post_def example_world_def completion_of_def
          created_answer_def n)
  show ?thesis using a b c d by simp
qed

text \<open>
  Claim C1. \<^verbatim>\<open>pipe\<close> is meant to turn every error into a string that starts with
  "Error: ", and on the non-streaming path it does: with a provider that answers
  with status 529 the result is the string "Error: Error: 529 - overloaded". On the
  streaming path \<^verbatim>\<open>pipe\<close> returns the generator of \<^verbatim>\<open>stream_response\<close> before
  any of the generator's body has run; the request is posted when the caller drains
  the generator, outside the \<^verbatim>\<open>try\<close> of \<^verbatim>\<open>pipe\<close>. For the same call with
  \<^verbatim>\<open>stream\<close> set, \<^verbatim>\<open>pipe\<close> returns a generator, and draining it yields
  nothing and raises the exception of the status check to the caller.
\<close>

theorem pipe_stream_error_reaches_the_caller:
  "fst (pipe (example_world \<lparr>status_code = 529, body_text = ''overloaded'',
                              json = Inr PNone, events = []\<rparr>)
          ''hi'' ''claude-sonnet-4-20250514''
          [PDict [(''role'', PStr ''user''), (''content'', PStr ''hi'')]]
          [(''stream'', PBool False)] []) =
     Returned (PStr ''Error: Error: 529 - overloaded'') \<and>
   (case fst (pipe (example_world \<lparr>status_code = 529, body_text = ''overloaded'',
                                    json = Inr PNone, events = []\<rparr>)
                ''hi'' ''claude-sonnet-4-20250514''
                [PDict [(''role'', PStr ''user''), (''content'', PStr ''hi'')]]
                [(''stream'', PBool True)] []) of
      Generator payload \<Rightarrow>
        (fragments (fst (stream_response
           (example_world \<lparr>status_code = 529, body_text = ''overloaded'',
                           json = Inr PNone, events = []\<rparr>) payload [])),
         raised (fst (stream_response
           (example_world \<lparr>status_code = 529, body_text = ''overloaded'',
                           json = Inr PNone, events = []\<rparr>) payload [])))
    | Returned v \<Rightarrow> ([v], None)) =
   ([], Some (Exception ''Error: 529 - overloaded''))"
proof -
  let ?w = "example_world \<lparr>status_code = 529, body_text = ''overloaded'',
                             json = Inr PNone, events = []\<rparr>"
  let ?msgs = "[PDict [(''role'', PStr ''user''), (''content'', PStr ''hi'')]]"
  have n: "str_nat 529 = ''529''"
    by (simp add: str_nat.simps digit_char_def)
  have drained: "\<And>payload. fst (stream_response ?w payload []) =
      ([], Some (Exception ''Error: 529 - overloaded''))"
    by (simp add: stream_response_def post_def example_world_def n)
  have built: "\<exists>payload. prepare_payload ?w ''claude-sonnet-4-20250514'' ?msgs body =
      Inr payload" for body
    by (simp add: prepare_payload_def normalize_def initial_locals_def
          process_message_def text_part_def caching_model_def example_world_def Let_def)
  have plain: "fst (pipe ?w ''hi'' ''claude-sonnet-4-20250514'' ?msgs
                  [(''stream'', PBool False)] []) =
               Returned (PStr ''Error: Error: 529 - overloaded'')"
  proof -
    obtain payload where "prepare_payload ?w ''claude-sonnet-4-20250514'' ?msgs
        [(''stream'', PBool False)] = Inr payload"
      using built by blast
    moreover have "get_completion ?w payload [] =
        (Inl (Exception ''Error: 529 - overloaded''), [payload])"
      by (simp add: get_completion_def post_def completion_of_def example_world_def n)
    ultimately show ?thesis
      by (simp add: pipe_def remove_keys_def body_get_def error_string_def)
  qed
  have "\<exists>payload. fst (pipe ?w ''hi'' ''claude-sonnet-4-20250514'' ?msgs
                [(''stream'', PBool True)] []) = Generator payload"
  proof -
    obtain payload where "prepare_payload ?w ''claude-sonnet-4-20250514'' ?msgs
        [(''stream'', PBool True)] = Inr payload"
      using built by blast
    then show ?thesis
      by (simp add: pipe_def remove_keys_def body_get_def)
  qed
  then obtain payload where "fst (pipe ?w ''hi'' ''claude-sonnet-4-20250514'' ?msgs
                [(''stream'', PBool True)] []) = Generator payload"
    by blast
  then show ?thesis
    using plain by (simp add: drained fragments_def raised_def)
qed


section \<open>Normalization\<close>

subsection \<open>Text parts and images\<close>

lemma text_part_cases:
  "text_part w model_id t =
     (if model_id = caching_model then
        (case get_tokens w t of
           Inl e \<Rightarrow> Inl e
         | Inr n \<Rightarrow> (if 1024 \<le> n then Inr (marked_text_part t, True)
                     else Inr (plain_text_part t, False)))
      else Inr (plain_text_part t, False))"
  by (simp add: text_part_def marked_text_part_def plain_text_part_def split: sum.splits)

lemma split_on_length: "length (split_on c s) = Suc (length (filter (\<lambda>x. x = c) s))"
  by (induction s) (auto split: list.splits)

lemma split_on_first_exists:
  "\<exists>a rest. split_on c s = a # rest"
  by (cases "split_on c s") (use split_on_length [of c s] in auto)

lemma starts_with_append: "starts_with url p \<Longrightarrow> \<exists>r. url = p @ r"
  unfolding starts_with_def by (metis append_take_drop_id)

lemma mime_has_colon:
  assumes "starts_with url ''data:image''"
  shows "1 < length (split_on CHR '':'' (takeWhile (\<lambda>x. x \<noteq> CHR '','') url))"
proof -
  from assms obtain r where "url = ''data:image'' @ r"
    using starts_with_append by blast
  then show ?thesis
    by (simp add: split_on_length del: split_on.simps)
qed

lemma process_image_inline:
  assumes "payload_entry image_data ''url'' = Some (PStr url)"
    and "starts_with url ''data:image''" and "CHR '','' \<in> set url"
  shows "\<exists>media_type. process_image image_data =
           Inr (PDict [(''type'', PStr ''image''),
                       (''source'', PDict [(''type'', PStr ''base64''),
                                           (''media_type'', PStr media_type),
                                           (''data'', PStr (tl (dropWhile (\<lambda>x. x \<noteq> CHR '','') url)))])])"
proof -
  have s: "subscript image_data ''url'' = Inr (PStr url)"
    using assms(1) by (rule subscript_entry)
  let ?mime = "takeWhile (\<lambda>x. x \<noteq> CHR '','') url"
  have u: "unpack2 (split_once CHR '','' url) = Inr (?mime, tl (dropWhile (\<lambda>x. x \<noteq> CHR '','') url))"
    using assms(3) by (simp add: split_once_def)
  have "1 < length (split_on CHR '':'' ?mime)"
    using assms(2) by (rule mime_has_colon)
  then have i: "list_index (split_on CHR '':'' ?mime) 1 = Inr (split_on CHR '':'' ?mime ! 1)"
    by (simp add: list_index_def)
  obtain a rest where "split_on CHR '';'' (split_on CHR '':'' ?mime ! 1) = a # rest"
    using split_on_first_exists by blast
  then have j: "list_index (split_on CHR '';'' (split_on CHR '':'' ?mime ! 1)) 0 = Inr a"
    by (simp add: list_index_def)
  show ?thesis
    using s u i j assms(2) by (simp add: process_image_def)
qed

lemma process_image_remote:
  assumes "payload_entry image_data ''url'' = Some (PStr url)"
    and "\<not> starts_with url ''data:image''"
  shows "process_image image_data =
           Inr (PDict [(''type'', PStr ''image''),
                       (''source'', PDict [(''type'', PStr ''url''), (''url'', PStr url)])])"
  using assms subscript_entry [OF assms(1)] by (simp add: process_image_def)

lemma image_size_inline:
  "image_size_of (PDict [(''type'', PStr ''image''),
                       (''source'', PDict [(''type'', PStr ''base64''),
                                           (''media_type'', PStr media_type),
                                           (''data'', PStr d)])]) = Inr (of_nat (length d) * 3 / 4)"
  by (simp add: image_size_of_def)

lemma image_size_remote:
  "image_size_of (PDict [(''type'', PStr ''image''),
                       (''source'', PDict [(''type'', PStr ''url''), (''url'', PStr url)])]) = Inr 0"
  by (simp add: image_size_of_def)

lemma image_part_processed:
  assumes "image_url_of item = Some url"
    and "starts_with url ''data:image'' \<Longrightarrow> CHR '','' \<in> set url"
  shows "\<exists>image_data processed_image.
           subscript item ''image_url'' = Inr image_data \<and>
           process_image image_data = Inr processed_image \<and>
           image_size_of processed_image = Inr (estimated_size url)"
proof -
  from assms(1) obtain image_data where
    a: "payload_entry item ''image_url'' = Some image_data"
       "payload_entry image_data ''url'' = Some (PStr url)"
    by (auto simp: image_url_of_def split: option.splits pyval.splits)
  have s: "subscript item ''image_url'' = Inr image_data"
    using a(1) by (rule subscript_entry)
  show ?thesis
  proof (cases "starts_with url ''data:image''")
    case True
    then obtain mt where "process_image image_data =
           Inr (PDict [(''type'', PStr ''image''),
                       (''source'', PDict [(''type'', PStr ''base64''),
                                           (''media_type'', PStr mt),
                                           (''data'', PStr (tl (dropWhile (\<lambda>x. x \<noteq> CHR '','') url)))])])"
      using process_image_inline [OF a(2)] assms(2) by blast
    then show ?thesis
      using s True by (simp add: image_size_inline estimated_size_def)
  next
    case False
    then show ?thesis
      using s process_image_remote [OF a(2)] by (simp add: image_size_remote estimated_size_def)
  qed
qed

subsection \<open>One content part\<close>

lemma part_type_subscript: "part_type item = Some ty \<Longrightarrow> subscript item ''type'' = Inr ty"
  by (simp add: part_type_def subscript_entry)

lemma process_item_text:
  assumes "part_type item = Some (PStr ''text'')" and "payload_entry item ''text'' = Some t"
  shows "process_item w model_id st item =
           (case text_part w model_id t of
              Inl e \<Rightarrow> Inl e
            | Inr (text_content, c) \<Rightarrow>
                Inr (st\<lparr>processed_content := processed_content st @ [text_content],
                        cached := (cached st \<or> c)\<rparr>))"
  using part_type_subscript [OF assms(1)] subscript_entry [OF assms(2)]
  by (simp add: process_item_def)

lemma process_item_other:
  assumes "part_type item = Some ty" and "ty \<noteq> PStr ''text''" and "ty \<noteq> PStr ''image_url''"
  shows "process_item w model_id st item = Inr st"
  using part_type_subscript [OF assms(1)] assms(2,3) by (simp add: process_item_def)

lemma process_item_image:
  assumes "part_type item = Some (PStr ''image_url'')" and "image_url_of item = Some url"
    and "starts_with url ''data:image'' \<Longrightarrow> CHR '','' \<in> set url"
  shows "\<exists>processed_image.
           process_item w model_id st item =
             (if 5 \<le> image_count st
              then Inl (ValueError ''Maximum of 5 images per API call exceeded'')
              else if size_limit < total_image_size st + estimated_size url
              then Inl (ValueError ''Total size of images exceeds 100 MB limit'')
              else Inr (st\<lparr>processed_content := processed_content st @ [processed_image],
                           total_image_size := total_image_size st + estimated_size url,
                           image_count := image_count st + 1\<rparr>))"
proof -
  obtain image_data processed_image where
    "subscript item ''image_url'' = Inr image_data"
    "process_image image_data = Inr processed_image"
    "image_size_of processed_image = Inr (estimated_size url)"
    using image_part_processed [OF assms(2,3)] by blast
  then have "process_item w model_id st item =
             (if 5 \<le> image_count st
              then Inl (ValueError ''Maximum of 5 images per API call exceeded'')
              else if size_limit < total_image_size st + estimated_size url
              then Inl (ValueError ''Total size of images exceeds 100 MB limit'')
              else Inr (st\<lparr>processed_content := processed_content st @ [processed_image],
                           total_image_size := total_image_size st + estimated_size url,
                           image_count := image_count st + 1\<rparr>))"
    using part_type_subscript [OF assms(1)]
    by (simp add: process_item_def size_limit_def)
  then show ?thesis by blast
qed

lemma process_items_append:
  "process_items w model_id st (xs @ ys) =
     (case process_items w model_id st xs of
        Inl e \<Rightarrow> Inl e
      | Inr st' \<Rightarrow> process_items w model_id st' ys)"
  by (induction xs arbitrary: st) (auto split: sum.splits)

subsection \<open>The image limits\<close>

lemma estimated_size_nonneg: "0 \<le> estimated_size url"
  by (simp add: estimated_size_def)

lemma part_size_nonneg: "0 \<le> part_size item"
  by (simp add: part_size_def estimated_size_nonneg split: option.splits)

lemma size_in_nonneg: "0 \<le> size_in items"
  by (induction items) (auto simp: size_in_def part_size_nonneg)

lemma images_in_Cons:
  "images_in (item # items) = (if is_image_part item then Suc (images_in items) else images_in items)"
  by (simp add: images_in_def)

lemma size_in_Cons:
  "size_in (item # items) =
     (if is_image_part item then part_size item + size_in items else size_in items)"
  by (simp add: size_in_def)

lemma text_part_tokenizable:
  "tokenizable w model_id t \<Longrightarrow> \<exists>text_content c. text_part w model_id t = Inr (text_content, c)"
  by (auto simp: tokenizable_def text_part_cases split: sum.splits if_splits)

text \<open>A well-formed part that is not an image leaves the counters as they are.\<close>

lemma process_item_no_image:
  assumes "well_formed_part w model_id item" and "\<not> is_image_part item"
  shows "\<exists>st'. process_item w model_id st item = Inr st' \<and>
               image_count st' = image_count st \<and>
               total_image_size st' = total_image_size st \<and>
               processed_messages st' = processed_messages st"
proof -
  from assms(1) obtain ty where ty: "part_type item = Some ty"
    by (auto simp: well_formed_part_def split: option.splits)
  show ?thesis
  proof (cases "ty = PStr ''text''")
    case True
    with assms(1) ty obtain t where t: "payload_entry item ''text'' = Some t"
      "tokenizable w model_id t"
      by (auto simp: well_formed_part_def split: option.splits)
    obtain text_content c where "text_part w model_id t = Inr (text_content, c)"
      using text_part_tokenizable [OF t(2)] by blast
    then show ?thesis
      using process_item_text [of item t w model_id st] ty True t(1) by simp
  next
    case False
    moreover have "ty \<noteq> PStr ''image_url''"
      using assms(2) ty by (simp add: is_image_part_def)
    ultimately show ?thesis
      using process_item_other [OF ty] by simp
  qed
qed

text \<open>A well-formed image part passes the two checks or raises one of the two errors.\<close>

lemma process_item_is_image:
  assumes "well_formed_part w model_id item" and "is_image_part item"
  shows "\<exists>processed_image.
           process_item w model_id st item =
             (if 5 \<le> image_count st
              then Inl (ValueError ''Maximum of 5 images per API call exceeded'')
              else if size_limit < total_image_size st + part_size item
              then Inl (ValueError ''Total size of images exceeds 100 MB limit'')
              else Inr (st\<lparr>processed_content := processed_content st @ [processed_image],
                           total_image_size := total_image_size st + part_size item,
                           image_count := image_count st + 1\<rparr>))"
proof -
  have ty: "part_type item = Some (PStr ''image_url'')"
    using assms(2) by (simp add: is_image_part_def)
  with assms(1) obtain url where url: "image_url_of item = Some url"
    "starts_with url ''data:image'' \<Longrightarrow> CHR '','' \<in> set url"
    by (auto simp: well_formed_part_def split: option.splits if_splits)
  have size: "part_size item = estimated_size url"
    using url(1) by (simp add: part_size_def)
  show ?thesis
    unfolding size by (rule process_item_image [OF ty url])
qed

lemma process_items_limits:
  assumes "list_all (well_formed_part w model_id) items"
    and "image_count st \<le> 5" and "total_image_size st \<le> size_limit"
  shows "case process_items w model_id st items of
           Inl e \<Rightarrow>
             image_limit_exceeded e \<and>
             (5 < image_count st + images_in items \<or>
              size_limit < total_image_size st + size_in items)
         | Inr st' \<Rightarrow>
             image_count st' = image_count st + images_in items \<and>
             total_image_size st' = total_image_size st + size_in items \<and>
             image_count st' \<le> 5 \<and> total_image_size st' \<le> size_limit \<and>
             processed_messages st' = processed_messages st"
  using assms
proof (induction items arbitrary: st)
  case Nil
  then show ?case by (simp add: images_in_def size_in_def)
next
  case (Cons item items)
  from Cons.prems(1) have wf: "well_formed_part w model_id item"
    and wfs: "list_all (well_formed_part w model_id) items"
    by simp_all
  show ?case
  proof (cases "is_image_part item")
    case False
    obtain st' where st': "process_item w model_id st item = Inr st'"
      "image_count st' = image_count st" "total_image_size st' = total_image_size st"
      "processed_messages st' = processed_messages st"
      using process_item_no_image [OF wf False] by blast
    have "image_count st' \<le> 5" "total_image_size st' \<le> size_limit"
      using st' Cons.prems by simp_all
    from Cons.IH [OF wfs this] show ?thesis
      using st' False by (simp add: images_in_Cons size_in_Cons split: sum.splits)
  next
    case True
    obtain processed_image where step:
      "process_item w model_id st item =
         (if 5 \<le> image_count st
          then Inl (ValueError ''Maximum of 5 images per API call exceeded'')
          else if size_limit < total_image_size st + part_size item
          then Inl (ValueError ''Total size of images exceeds 100 MB limit'')
          else Inr (st\<lparr>processed_content := processed_content st @ [processed_image],
                       total_image_size := total_image_size st + part_size item,
                       image_count := image_count st + 1\<rparr>))"
      using process_item_is_image [OF wf True] by blast
    have nonneg: "0 \<le> size_in items" by (rule size_in_nonneg)
    show ?thesis
    proof (cases "5 \<le> image_count st")
      case full: True
      then show ?thesis
        using step True by (simp add: image_limit_exceeded_def images_in_Cons)
    next
      case room: False
      show ?thesis
      proof (cases "size_limit < total_image_size st + part_size item")
        case over: True
        then show ?thesis
          using step room True nonneg
          by (simp add: image_limit_exceeded_def size_in_Cons)
      next
        case fits: False
        let ?st' = "st\<lparr>processed_content := processed_content st @ [processed_image],
                       total_image_size := total_image_size st + part_size item,
                       image_count := image_count st + 1\<rparr>"
        have s: "process_item w model_id st item = Inr ?st'"
          using step room fits by simp
        have "image_count ?st' \<le> 5" "total_image_size ?st' \<le> size_limit"
          using room fits by simp_all
        from Cons.IH [OF wfs this] show ?thesis
          using s True
          by (simp add: images_in_Cons size_in_Cons add.assoc split: sum.splits)
      qed
    qed
  qed
qed

lemma images_in_append: "images_in (xs @ ys) = images_in xs + images_in ys"
  by (simp add: images_in_def)

lemma size_in_append: "size_in (xs @ ys) = size_in xs + size_in ys"
  by (simp add: size_in_def)

lemma all_parts_Cons: "all_parts (m # ms) = parts_of m @ all_parts ms"
  by (simp add: all_parts_def)

text \<open>The two branches of the outer loop, for a message that is a dictionary.\<close>

lemma process_message_list:
  assumes "map_of d ''content'' = Some (PList items)"
  shows "process_message w model_id st (PDict d) =
           (case process_items w model_id (st\<lparr>processed_content := []\<rparr>) items of
              Inl e \<Rightarrow> Inl e
            | Inr st1 \<Rightarrow>
                (case map_of d ''role'' of
                   None \<Rightarrow> Inl (KeyError (quoted ''role''))
                 | Some role \<Rightarrow>
                     Inr (st1\<lparr>processed_messages :=
                                processed_messages st1 @
                                [PDict [(''role'', role),
                                        (''content'', PList (processed_content st1))]]\<rparr>)))"
  using assms by (simp add: process_message_def Let_def split: sum.splits option.splits)

lemma process_message_plain:
  assumes "\<nexists>items. map_of d ''content'' = Some (PList items)"
  shows "process_message w model_id st (PDict d) =
           (case text_part w model_id
                   (case map_of d ''content'' of None \<Rightarrow> PStr [] | Some v \<Rightarrow> v) of
              Inl e \<Rightarrow> Inl e
            | Inr (text_content, c) \<Rightarrow>
                (case map_of d ''role'' of
                   None \<Rightarrow> Inl (KeyError (quoted ''role''))
                 | Some role \<Rightarrow>
                     Inr (st\<lparr>processed_content := [text_content],
                             cached := (cached st \<or> c),
                             processed_messages :=
                               processed_messages st @
                               [PDict [(''role'', role),
                                       (''content'', PList [text_content])]]\<rparr>)))"
  using assms
  by (cases "map_of d ''content''")
     (auto simp: process_message_def Let_def split: sum.splits option.splits pyval.splits)

lemma process_message_limits:
  assumes "well_formed_message w model_id message"
    and "image_count st \<le> 5" and "total_image_size st \<le> size_limit"
  shows "case process_message w model_id st message of
           Inl e \<Rightarrow>
             image_limit_exceeded e \<and>
             (5 < image_count st + images_in (parts_of message) \<or>
              size_limit < total_image_size st + size_in (parts_of message))
         | Inr st' \<Rightarrow>
             image_count st' = image_count st + images_in (parts_of message) \<and>
             total_image_size st' = total_image_size st + size_in (parts_of message) \<and>
             image_count st' \<le> 5 \<and> total_image_size st' \<le> size_limit"
proof -
  from assms(1) obtain d role where d: "message = PDict d" "map_of d ''role'' = Some role"
    by (cases message) (auto simp: well_formed_message_def payload_entry_def)
  show ?thesis
  proof (cases "\<exists>items. map_of d ''content'' = Some (PList items)")
    case True
    then obtain items where items: "map_of d ''content'' = Some (PList items)" by blast
    have wf: "list_all (well_formed_part w model_id) items"
      using assms(1) d items by (simp add: well_formed_message_def payload_entry_def)
    have parts: "parts_of message = items"
      using d items by (simp add: parts_of_def payload_entry_def)
    let ?st = "st\<lparr>processed_content := []\<rparr>"
    have "image_count ?st \<le> 5" "total_image_size ?st \<le> size_limit"
      using assms(2,3) by simp_all
    from process_items_limits [OF wf this] show ?thesis
      using d parts
      by (simp add: process_message_list [OF items] split: sum.splits)
  next
    case False
    define c where "c = (case map_of d ''content'' of None \<Rightarrow> PStr [] | Some v \<Rightarrow> v)"
    have tok: "tokenizable w model_id c"
      using assms(1) d False
      by (auto simp: well_formed_message_def payload_entry_def c_def
            split: option.splits pyval.splits)
    obtain text_content b where tp: "text_part w model_id c = Inr (text_content, b)"
      using text_part_tokenizable [OF tok] by blast
    have parts: "parts_of message = []"
      using d False by (auto simp: parts_of_def payload_entry_def split: option.splits pyval.splits)
    show ?thesis
      using d tp parts assms(2,3)
      by (simp add: process_message_plain [OF False] c_def [symmetric] images_in_def
            size_in_def)
  qed
qed

lemma process_messages_limits:
  assumes "list_all (well_formed_message w model_id) messages"
    and "image_count st \<le> 5" and "total_image_size st \<le> size_limit"
  shows "case process_messages w model_id st messages of
           Inl e \<Rightarrow>
             image_limit_exceeded e \<and>
             (5 < image_count st + images_in (all_parts messages) \<or>
              size_limit < total_image_size st + size_in (all_parts messages))
         | Inr st' \<Rightarrow>
             image_count st + images_in (all_parts messages) \<le> 5 \<and>
             total_image_size st + size_in (all_parts messages) \<le> size_limit"
  using assms
proof (induction messages arbitrary: st)
  case Nil
  then show ?case by (simp add: all_parts_def images_in_def size_in_def)
next
  case (Cons m ms)
  from Cons.prems(1) have wf: "well_formed_message w model_id m"
    and wfs: "list_all (well_formed_message w model_id) ms"
    by simp_all
  have nonneg: "0 \<le> size_in (all_parts ms)" by (rule size_in_nonneg)
  show ?case
  proof (cases "process_message w model_id st m")
    case (Inl e)
    then show ?thesis
      using process_message_limits [OF wf Cons.prems(2,3)] nonneg
      by (auto simp: all_parts_Cons images_in_append size_in_append)
  next
    case (Inr st')
    then have st': "image_count st' = image_count st + images_in (parts_of m)"
      "total_image_size st' = total_image_size st + size_in (parts_of m)"
      "image_count st' \<le> 5" "total_image_size st' \<le> size_limit"
      using process_message_limits [OF wf Cons.prems(2,3)] by simp_all
    from Cons.IH [OF wfs st'(3,4)] show ?thesis
      using Inr st'(1,2)
      by (simp add: all_parts_Cons images_in_append size_in_append add.assoc split: sum.splits)
  qed
qed

lemma normalize_limits:
  assumes "list_all (well_formed_message w model_id) messages"
  shows "case normalize w model_id messages of
           Inl e \<Rightarrow>
             image_limit_exceeded e \<and>
             (5 < images_in (all_parts messages) \<or> size_limit < size_in (all_parts messages))
         | Inr normalized \<Rightarrow>
             images_in (all_parts messages) \<le> 5 \<and> size_in (all_parts messages) \<le> size_limit"
proof -
  have "image_count initial_locals \<le> 5" "total_image_size initial_locals \<le> size_limit"
    by (simp_all add: initial_locals_def size_limit_def)
  from process_messages_limits [OF assms this] show ?thesis
    by (simp add: normalize_def initial_locals_def split: sum.splits)
qed

lemma pipe_normalize_error:
  assumes "normalize w model_id (snd (pop_system_message w messages)) = Inl e"
  shows "pipe w user_message model_id messages body sent =
           (Returned (error_string e), remove_keys body, sent)"
  using assms
  by (cases "pop_system_message w messages") (simp add: pipe_def prepare_payload_def Let_def)

text \<open>
  Claim C2. For messages of the expected shape, normalization fails with one of the
  two image-limit errors exactly when the request has more than 5 image parts or the
  estimated sizes of its images add up to more than 100 MiB, and it returns the
  normalized messages exactly when there are at most 5 images and the sizes add up to
  at most 100 MiB; so 5 images are accepted and a total of exactly 100 MiB would be.
  No other error occurs. When normalization fails, \<^verbatim>\<open>pipe\<close> returns the error
  string and posts nothing: no payload is built.
\<close>

theorem normalize_fails_iff_image_limit_exceeded:
  assumes "list_all (well_formed_message w model_id) messages"
  shows "((\<exists>e. normalize w model_id messages = Inl e \<and> image_limit_exceeded e) \<longleftrightarrow>
            (5 < images_in (all_parts messages) \<or> size_limit < size_in (all_parts messages))) \<and>
         ((\<exists>normalized. normalize w model_id messages = Inr normalized) \<longleftrightarrow>
            (images_in (all_parts messages) \<le> 5 \<and> size_in (all_parts messages) \<le> size_limit)) \<and>
         (\<forall>e. normalize w model_id messages = Inl e \<longrightarrow> image_limit_exceeded e) \<and>
         (\<forall>e messages0 user_text body sent.
            messages = snd (pop_system_message w messages0) \<and>
            normalize w model_id messages = Inl e \<longrightarrow>
              pipe w user_text model_id messages0 body sent =
                (Returned (error_string e), remove_keys body, sent))"
proof -
  note lim = normalize_limits [OF assms]
  show ?thesis
  proof (cases "normalize w model_id messages")
    case (Inl e)
    then show ?thesis
      using lim by (auto simp: pipe_normalize_error)
  next
    case (Inr normalized)
    then show ?thesis
      using lim by auto
  qed
qed

lemma inline_image_part:
  "is_image_part (inline_image n) \<and> well_formed_part w model_id (inline_image n) \<and>
   part_size (inline_image n) = of_nat n * 3 / 4"
  by (simp add: inline_image_def is_image_part_def well_formed_part_def part_type_def
        payload_entry_def image_url_of_def part_size_def estimated_size_def starts_with_def)

lemma remote_image_part:
  "is_image_part remote_image \<and> well_formed_part w model_id remote_image \<and>
   part_size remote_image = 0"
  by (simp add: remote_image_def is_image_part_def well_formed_part_def part_type_def
        payload_entry_def image_url_of_def part_size_def estimated_size_def starts_with_def)

lemma user_turn_parts:
  "parts_of (user_turn parts) = parts \<and>
   well_formed_message w model_id (user_turn parts) =
     list_all (well_formed_part w model_id) parts"
  by (simp add: user_turn_def parts_of_def well_formed_message_def payload_entry_def)

theorem normalize_fails_iff_image_limit_exceeded_witness:
  "\<forall>r. (\<exists>normalized.
          normalize (example_world r) ''claude-opus-4-20250514''
            [user_turn [remote_image, remote_image],
             user_turn [inline_image 139810133, remote_image, remote_image]] =
          Inr normalized) \<and>
       (\<exists>e. normalize (example_world r) ''claude-opus-4-20250514''
            [user_turn [remote_image, remote_image],
             user_turn [inline_image 139810134, remote_image, remote_image]] = Inl e \<and>
          image_limit_exceeded e) \<and>
       (\<exists>e. normalize (example_world r) ''claude-opus-4-20250514''
            [user_turn [remote_image, remote_image, remote_image],
             user_turn [remote_image, remote_image, remote_image]] = Inl e \<and>
          image_limit_exceeded e)"
proof
  fix r
  let ?w = "example_world r" and ?m = "''claude-opus-4-20250514''"
  let ?a = "[user_turn [remote_image, remote_image],
             user_turn [inline_image 139810133, remote_image, remote_image]]"
  let ?b = "[user_turn [remote_image, remote_image],
             user_turn [inline_image 139810134, remote_image, remote_image]]"
  let ?c = "[user_turn [remote_image, remote_image, remote_image],
             user_turn [remote_image, remote_image, remote_image]]"
  have wa: "list_all (well_formed_message ?w ?m) ?a"
    and wb: "list_all (well_formed_message ?w ?m) ?b"
    and wc: "list_all (well_formed_message ?w ?m) ?c"
    by (simp_all add: user_turn_parts inline_image_part remote_image_part)
  have a: "images_in (all_parts ?a) = 5" "size_in (all_parts ?a) = 139810133 * 3 / 4"
    and b: "images_in (all_parts ?b) = 5" "size_in (all_parts ?b) = 139810134 * 3 / 4"
    and c: "images_in (all_parts ?c) = 6" "size_in (all_parts ?c) = 0"
    by (simp_all add: all_parts_def user_turn_parts images_in_def size_in_def
          inline_image_part remote_image_part)
  have "\<exists>normalized. normalize ?w ?m ?a = Inr normalized"
    using normalize_fails_iff_image_limit_exceeded [OF wa]
    by (simp add: a size_limit_def)
  moreover have "\<exists>e. normalize ?w ?m ?b = Inl e \<and> image_limit_exceeded e"
    using normalize_fails_iff_image_limit_exceeded [OF wb]
    by (simp add: b size_limit_def)
  moreover have "\<exists>e. normalize ?w ?m ?c = Inl e \<and> image_limit_exceeded e"
    using normalize_fails_iff_image_limit_exceeded [OF wc]
    by (simp add: c size_limit_def)
  ultimately show "(\<exists>normalized. normalize ?w ?m ?a = Inr normalized) \<and>
       (\<exists>e. normalize ?w ?m ?b = Inl e \<and> image_limit_exceeded e) \<and>
       (\<exists>e. normalize ?w ?m ?c = Inl e \<and> image_limit_exceeded e)"
    by blast
qed

subsection \<open>Parts of other types\<close>

lemma unrecognized_part_step:
  "unrecognized_part item \<Longrightarrow> process_item w model_id st item = Inr st"
  by (auto simp: unrecognized_part_def process_item_other split: option.splits)

lemma process_items_unrecognized:
  "list_all unrecognized_part items \<Longrightarrow> process_items w model_id st items = Inr st"
  by (induction items) (auto simp: unrecognized_part_step)

text \<open>
  Claim C10. A content part whose type tag is neither \<^verbatim>\<open>text\<close> nor
  \<^verbatim>\<open>image_url\<close> is dropped without a trace: the pass of the inner loop over it
  succeeds and leaves every local variable as it was (no normalized part, the image
  count and the size unchanged), so that a content sequence with the part gives what
  the sequence without it gives, for the parts of one message and for the message as
  a whole. A message all of whose parts are of such types normalizes to its role
  with an empty content.
\<close>

theorem unrecognized_part_is_dropped:
  assumes "unrecognized_part item"
  shows "process_item w model_id st item = Inr st \<and>
         process_items w model_id st (before @ item # after) =
           process_items w model_id st (before @ after) \<and>
         (map_of d ''content'' = Some (PList (before @ item # after)) \<and>
          map_of d' ''content'' = Some (PList (before @ after)) \<and>
          map_of d' ''role'' = map_of d ''role'' \<longrightarrow>
            process_message w model_id st (PDict d) = process_message w model_id st (PDict d')) \<and>
         (list_all unrecognized_part others \<and>
          map_of d ''content'' = Some (PList (item # others)) \<and>
          map_of d ''role'' = Some role \<longrightarrow>
            normalize w model_id [PDict d] =
              Inr [PDict [(''role'', role), (''content'', PList [])]])"
proof -
  have step: "process_item w model_id st item = Inr st" for st
    using assms by (rule unrecognized_part_step)
  have seq: "process_items w model_id st (before @ item # after) =
               process_items w model_id st (before @ after)" for st
    by (simp add: process_items_append step split: sum.splits)
  have msg: "process_message w model_id st (PDict d) = process_message w model_id st (PDict d')"
    if "map_of d ''content'' = Some (PList (before @ item # after))"
      and "map_of d' ''content'' = Some (PList (before @ after))"
      and "map_of d' ''role'' = map_of d ''role''"
    using that by (simp add: process_message_list seq split: sum.splits)
  have all: "normalize w model_id [PDict d] =
               Inr [PDict [(''role'', role), (''content'', PList [])]]"
    if "list_all unrecognized_part others"
      and "map_of d ''content'' = Some (PList (item # others))"
      and "map_of d ''role'' = Some role"
  proof -
    have "list_all unrecognized_part (item # others)"
      using assms that(1) by simp
    then have "process_items w model_id (initial_locals\<lparr>processed_content := []\<rparr>)
                 (item # others) = Inr (initial_locals\<lparr>processed_content := []\<rparr>)"
      by (rule process_items_unrecognized)
    then show ?thesis
      using that(2,3)
      by (simp add: normalize_def process_message_list initial_locals_def)
  qed
  show ?thesis using step seq msg all by blast
qed

theorem unrecognized_part_is_dropped_witness:
  "\<forall>r. normalize (example_world r) ''claude-opus-4-20250514''
          [PDict [(''role'', PStr ''user''),
                  (''content'', PList [PDict [(''type'', PStr ''input_audio'')],
                                       PDict [(''type'', PStr ''file'')]])]] =
        Inr [PDict [(''role'', PStr ''user''), (''content'', PList [])]]"
proof
  fix r
  have a: "unrecognized_part (PDict [(''type'', PStr ''input_audio'')])"
    and b: "list_all unrecognized_part [PDict [(''type'', PStr ''file'')]]"
    by (simp_all add: unrecognized_part_def part_type_def payload_entry_def)
  show "normalize (example_world r) ''claude-opus-4-20250514''
          [PDict [(''role'', PStr ''user''),
                  (''content'', PList [PDict [(''type'', PStr ''input_audio'')],
                                       PDict [(''type'', PStr ''file'')]])]] =
        Inr [PDict [(''role'', PStr ''user''), (''content'', PList [])]]"
    using unrecognized_part_is_dropped [OF a, of "example_world r" "''claude-opus-4-20250514''"
        initial_locals "[]" "[]"
        "[(''role'', PStr ''user''),
          (''content'', PList [PDict [(''type'', PStr ''input_audio'')],
                               PDict [(''type'', PStr ''file'')]])]"
        "[]" "[PDict [(''type'', PStr ''file'')]]" "PStr ''user''"] b
    by simp
qed

subsection \<open>The cache-eligibility marker\<close>

lemma text_part_result:
  assumes "text_part w model_id t = Inr (text_content, c)"
  shows "text_content = (if cache_eligible w model_id t then marked_text_part t
                         else plain_text_part t) \<and>
         c = cache_eligible w model_id t"
  using assms
  by (auto simp: text_part_cases cache_eligible_def caching_model_def
        split: if_splits sum.splits)

lemma marked_follows_rule:
  "cache_eligible w model_id t \<Longrightarrow> follows_marker_rule w model_id (marked_text_part t)"
  by (simp add: follows_marker_rule_def marked_text_part_def has_cache_marker_def
        is_text_part_def part_type_def payload_entry_def)

lemma plain_follows_rule:
  "\<not> cache_eligible w model_id t \<Longrightarrow> follows_marker_rule w model_id (plain_text_part t)"
  by (simp add: follows_marker_rule_def plain_text_part_def has_cache_marker_def
        is_text_part_def part_type_def payload_entry_def)

lemma text_part_follows_rule:
  "text_part w model_id t = Inr (text_content, c) \<Longrightarrow> follows_marker_rule w model_id text_content"
  using text_part_result [of w model_id t text_content c]
  by (cases "cache_eligible w model_id t") (simp_all add: marked_follows_rule plain_follows_rule)

lemma process_image_shape:
  "process_image image_data = Inr p \<Longrightarrow>
   \<exists>source. p = PDict [(''type'', PStr ''image''), (''source'', source)]"
  by (auto simp: process_image_def split: sum.splits pyval.splits if_splits prod.splits)

lemma image_follows_rule:
  "follows_marker_rule w model_id (PDict [(''type'', PStr ''image''), (''source'', source)])"
  by (simp add: follows_marker_rule_def has_cache_marker_def is_text_part_def part_type_def
        payload_entry_def)

lemma process_item_follows_rule:
  assumes "process_item w model_id st item = Inr st'"
    and "list_all (follows_marker_rule w model_id) (processed_content st)"
  shows "list_all (follows_marker_rule w model_id) (processed_content st') \<and>
         processed_messages st' = processed_messages st"
proof (cases "subscript item ''type''")
  case (Inl e)
  then show ?thesis using assms by (simp add: process_item_def)
next
  case (Inr ty)
  show ?thesis
  proof (cases "ty = PStr ''text''")
    case True
    then show ?thesis
      using assms Inr
      by (auto simp: process_item_def text_part_follows_rule split: sum.splits)
  next
    case False
    show ?thesis
    proof (cases "ty = PStr ''image_url''")
      case True
      then show ?thesis
        using assms Inr False
        by (auto simp: process_item_def image_follows_rule dest!: process_image_shape
              split: sum.splits if_splits)
    next
      case other: False
      then show ?thesis
        using assms Inr False by (simp add: process_item_def)
    qed
  qed
qed

lemma process_items_follows_rule:
  assumes "process_items w model_id st items = Inr st'"
    and "list_all (follows_marker_rule w model_id) (processed_content st)"
  shows "list_all (follows_marker_rule w model_id) (processed_content st') \<and>
         processed_messages st' = processed_messages st"
  using assms
proof (induction items arbitrary: st)
  case Nil
  then show ?case by simp
next
  case (Cons item items)
  from Cons.prems(1) obtain st1 where st1: "process_item w model_id st item = Inr st1"
    "process_items w model_id st1 items = Inr st'"
    by (auto split: sum.splits)
  from process_item_follows_rule [OF st1(1) Cons.prems(2)]
  have "list_all (follows_marker_rule w model_id) (processed_content st1)"
    and "processed_messages st1 = processed_messages st"
    by simp_all
  with Cons.IH [OF st1(2)] show ?case by simp
qed

text \<open>The messages of a normalized list all of whose parts follow the rule.\<close>

lemma process_message_follows_rule:
  assumes "process_message w model_id st message = Inr st'"
  shows "\<exists>m. processed_messages st' = processed_messages st @ [m] \<and>
             list_all (follows_marker_rule w model_id) (parts_of m)"
proof -
  from assms obtain d where d: "message = PDict d"
    by (cases message) (auto simp: process_message_def Let_def)
  show ?thesis
  proof (cases "\<exists>items. map_of d ''content'' = Some (PList items)")
    case True
    then obtain items where items: "map_of d ''content'' = Some (PList items)" by blast
    from assms d obtain st1 role where st1:
      "process_items w model_id (st\<lparr>processed_content := []\<rparr>) items = Inr st1"
      "map_of d ''role'' = Some role"
      "st' = st1\<lparr>processed_messages := processed_messages st1 @
               [PDict [(''role'', role), (''content'', PList (processed_content st1))]]\<rparr>"
      by (auto simp: process_message_list [OF items] split: sum.splits option.splits)
    have "list_all (follows_marker_rule w model_id) (processed_content st1) \<and>
          processed_messages st1 = processed_messages (st\<lparr>processed_content := []\<rparr>)"
      by (rule process_items_follows_rule [OF st1(1)]) simp
    then show ?thesis
      using st1(3) by (simp add: parts_of_def payload_entry_def)
  next
    case False
    from assms d obtain text_content c role where tp:
      "text_part w model_id (case map_of d ''content'' of None \<Rightarrow> PStr [] | Some v \<Rightarrow> v) =
         Inr (text_content, c)"
      "map_of d ''role'' = Some role"
      "st' = st\<lparr>processed_content := [text_content], cached := (cached st \<or> c),
                processed_messages := processed_messages st @
                  [PDict [(''role'', role), (''content'', PList [text_content])]]\<rparr>"
      by (auto simp: process_message_plain [OF False] split: sum.splits option.splits)
    have "follows_marker_rule w model_id text_content"
      using tp(1) by (rule text_part_follows_rule)
    then show ?thesis
      using tp(3) by (simp add: parts_of_def payload_entry_def)
  qed
qed

lemma process_messages_follows_rule:
  assumes "process_messages w model_id st messages = Inr st'"
    and "\<forall>m \<in> set (processed_messages st). list_all (follows_marker_rule w model_id) (parts_of m)"
  shows "\<forall>m \<in> set (processed_messages st'). list_all (follows_marker_rule w model_id) (parts_of m)"
  using assms
proof (induction messages arbitrary: st)
  case Nil
  then show ?case by simp
next
  case (Cons message messages)
  from Cons.prems(1) obtain st1 where st1: "process_message w model_id st message = Inr st1"
    "process_messages w model_id st1 messages = Inr st'"
    by (auto split: sum.splits)
  from process_message_follows_rule [OF st1(1)] Cons.prems(2)
  have "\<forall>m \<in> set (processed_messages st1).
          list_all (follows_marker_rule w model_id) (parts_of m)"
    by auto
  with Cons.IH [OF st1(2)] show ?case by simp
qed

lemma normalize_follows_rule:
  assumes "normalize w model_id messages = Inr normalized"
  shows "\<forall>m \<in> set normalized. list_all (follows_marker_rule w model_id) (parts_of m)"
proof -
  from assms obtain st' where st':
    "process_messages w model_id initial_locals messages = Inr st'"
    "normalized = processed_messages st'"
    by (auto simp: normalize_def split: sum.splits)
  have "\<forall>m \<in> set (processed_messages initial_locals).
          list_all (follows_marker_rule w model_id) (parts_of m)"
    by (simp add: initial_locals_def)
  from process_messages_follows_rule [OF st'(1) this] show ?thesis
    using st'(2) by simp
qed

lemma cache_eligible_iff:
  "cache_eligible w model_id t \<longleftrightarrow>
     model_id = ''claude-3-5-sonnet-20241022'' \<and> (\<exists>n. get_tokens w t = Inr n \<and> 1024 \<le> n)"
  by (auto simp: cache_eligible_def split: sum.splits)

lemma follows_marker_rule_iff:
  "follows_marker_rule w model_id p \<longleftrightarrow>
     (has_cache_marker p \<longleftrightarrow>
        is_text_part p \<and> (\<exists>t. payload_entry p ''text'' = Some t \<and> cache_eligible w model_id t))"
  by (auto simp: follows_marker_rule_def split: option.splits)

text \<open>
  Claim C3. A text part of the input with the text \<open>t\<close> becomes the text part with
  the marker when \<open>t\<close> is eligible and the text part without it otherwise, where
  eligible means that the model id is \<^verbatim>\<open>claude-3-5-sonnet-20241022\<close> and the
  tokenizer counts at least 1024 tokens for \<open>t\<close>. In every normalized message list a
  part carries the marker exactly when it is a text part whose text is eligible; for
  any other model id no part carries it, whatever the token counts.
\<close>

theorem cache_marker_iff_eligible:
  "(part_type item = Some (PStr ''text'') \<and> payload_entry item ''text'' = Some t \<and>
    process_item w model_id st item = Inr st' \<longrightarrow>
      processed_content st' =
        processed_content st @
        [if cache_eligible w model_id t then marked_text_part t else plain_text_part t]) \<and>
   has_cache_marker (marked_text_part t) \<and> \<not> has_cache_marker (plain_text_part t) \<and>
   (cache_eligible w model_id t \<longleftrightarrow>
      model_id = ''claude-3-5-sonnet-20241022'' \<and> (\<exists>n. get_tokens w t = Inr n \<and> 1024 \<le> n)) \<and>
   (normalize w model_id messages = Inr normalized \<longrightarrow>
      (\<forall>m \<in> set normalized. \<forall>p \<in> set (parts_of m).
         has_cache_marker p \<longleftrightarrow>
           is_text_part p \<and>
           (\<exists>u. payload_entry p ''text'' = Some u \<and> cache_eligible w model_id u))) \<and>
   (model_id \<noteq> ''claude-3-5-sonnet-20241022'' \<and> normalize w model_id messages = Inr normalized \<longrightarrow>
      (\<forall>m \<in> set normalized. \<forall>p \<in> set (parts_of m). \<not> has_cache_marker p))"
proof -
  have item: "processed_content st' =
        processed_content st @
        [if cache_eligible w model_id t then marked_text_part t else plain_text_part t]"
    if "part_type item = Some (PStr ''text'')" and "payload_entry item ''text'' = Some t"
      and "process_item w model_id st item = Inr st'"
  proof -
    from that obtain text_content c where tp: "text_part w model_id t = Inr (text_content, c)"
      and st': "st' = st\<lparr>processed_content := processed_content st @ [text_content],
                          cached := (cached st \<or> c)\<rparr>"
      by (auto simp: process_item_text split: sum.splits)
    from text_part_result [OF tp] st' show ?thesis by simp
  qed
  have marks: "has_cache_marker (marked_text_part t) \<and> \<not> has_cache_marker (plain_text_part t)"
    by (simp add: has_cache_marker_def marked_text_part_def plain_text_part_def payload_entry_def)
  have out: "\<forall>m \<in> set normalized. \<forall>p \<in> set (parts_of m).
         has_cache_marker p \<longleftrightarrow>
           is_text_part p \<and>
           (\<exists>u. payload_entry p ''text'' = Some u \<and> cache_eligible w model_id u)"
    if "normalize w model_id messages = Inr normalized"
    using normalize_follows_rule [OF that]
    by (simp add: list_all_iff follows_marker_rule_iff)
  have other: "\<forall>m \<in> set normalized. \<forall>p \<in> set (parts_of m). \<not> has_cache_marker p"
    if "model_id \<noteq> ''claude-3-5-sonnet-20241022''"
      and "normalize w model_id messages = Inr normalized"
    using out [OF that(2)] that(1) by (simp add: cache_eligible_iff)
  show ?thesis
    using item marks out other cache_eligible_iff [of w model_id t] by blast
qed

lemma example_tokens:
  "get_tokens (example_world r) (PStr s) = Inr (length s)"
  by (simp add: get_tokens_def example_world_def)

theorem cache_marker_iff_eligible_witness:
  "\<forall>r. normalize (example_world r) ''claude-3-5-sonnet-20241022''
          [user_turn [PDict [(''type'', PStr ''text''),
                             (''text'', PStr (replicate 1024 CHR ''a''))],
                      PDict [(''type'', PStr ''text''),
                             (''text'', PStr (replicate 1023 CHR ''a''))]]] =
        Inr [PDict [(''role'', PStr ''user''),
                    (''content'', PList [marked_text_part (PStr (replicate 1024 CHR ''a'')),
                                         plain_text_part (PStr (replicate 1023 CHR ''a''))])]] \<and>
       cache_eligible (example_world r) ''claude-3-5-sonnet-20241022''
         (PStr (replicate 1024 CHR ''a'')) \<and>
       \<not> cache_eligible (example_world r) ''claude-3-5-sonnet-20241022''
         (PStr (replicate 1023 CHR ''a'')) \<and>
       normalize (example_world r) ''claude-3-7-sonnet-latest''
          [user_turn [PDict [(''type'', PStr ''text''),
                             (''text'', PStr (replicate 1024 CHR ''a''))]]] =
        Inr [PDict [(''role'', PStr ''user''),
                    (''content'', PList [plain_text_part (PStr (replicate 1024 CHR ''a''))])]]"
proof
  fix r
  let ?w = "example_world r"
  let ?long = "PStr (replicate 1024 CHR ''a'')" and ?short = "PStr (replicate 1023 CHR ''a'')"
  let ?msgs = "[user_turn [PDict [(''type'', PStr ''text''), (''text'', ?long)],
                           PDict [(''type'', PStr ''text''), (''text'', ?short)]]]"
  let ?out = "[PDict [(''role'', PStr ''user''),
                      (''content'', PList [marked_text_part ?long, plain_text_part ?short])]]"
  have a: "normalize ?w ''claude-3-5-sonnet-20241022'' ?msgs = Inr ?out"
    by (simp add: normalize_def initial_locals_def user_turn_def process_message_list
          process_item_def text_part_cases caching_model_def example_tokens)
  have b: "normalize ?w ''claude-3-7-sonnet-latest''
             [user_turn [PDict [(''type'', PStr ''text''), (''text'', ?long)]]] =
           Inr [PDict [(''role'', PStr ''user''), (''content'', PList [plain_text_part ?long])]]"
    by (simp add: normalize_def initial_locals_def user_turn_def process_message_list
          process_item_def text_part_cases caching_model_def)
  have "cache_eligible ?w ''claude-3-5-sonnet-20241022'' ?long \<and>
        \<not> cache_eligible ?w ''claude-3-5-sonnet-20241022'' ?short"
    using cache_marker_iff_eligible [of "PNone" ?long ?w "''claude-3-5-sonnet-20241022''"
        initial_locals initial_locals ?msgs ?out] a
    by (simp add: parts_of_def payload_entry_def marked_text_part_def plain_text_part_def
          has_cache_marker_def is_text_part_def part_type_def example_tokens)
  with a b show "normalize ?w ''claude-3-5-sonnet-20241022'' ?msgs = Inr ?out \<and>
       cache_eligible ?w ''claude-3-5-sonnet-20241022'' ?long \<and>
       \<not> cache_eligible ?w ''claude-3-5-sonnet-20241022'' ?short \<and>
       normalize ?w ''claude-3-7-sonnet-latest''
          [user_turn [PDict [(''type'', PStr ''text''), (''text'', ?long)]]] =
        Inr [PDict [(''role'', PStr ''user''), (''content'', PList [plain_text_part ?long])]]"
    by simp
qed

subsection \<open>Plain contents\<close>

lemma process_message_plain_message:
  assumes "plain_message w model_id message"
  shows "\<exists>st'. process_message w model_id st message = Inr st' \<and>
               processed_messages st' = processed_messages st @ [wrapped w model_id message]"
proof -
  from assms obtain d role s where d: "message = PDict d" "map_of d ''role'' = Some role"
    "map_of d ''content'' = Some (PStr s)" "tokenizable w model_id (PStr s)"
    by (cases message)
       (auto simp: plain_message_def payload_entry_def split: option.splits pyval.splits)
  have no_list: "\<nexists>items. map_of d ''content'' = Some (PList items)"
    using d(3) by simp
  obtain text_content c where tp: "text_part w model_id (PStr s) = Inr (text_content, c)"
    using text_part_tokenizable [OF d(4)] by blast
  from text_part_result [OF tp] show ?thesis
    using d tp by (simp add: process_message_plain [OF no_list] wrapped_def payload_entry_def)
qed

lemma process_messages_plain:
  assumes "list_all (plain_message w model_id) messages"
  shows "\<exists>st'. process_messages w model_id st messages = Inr st' \<and>
               processed_messages st' =
                 processed_messages st @ map (wrapped w model_id) messages"
  using assms
proof (induction messages arbitrary: st)
  case Nil
  then show ?case by simp
next
  case (Cons m ms)
  from Cons.prems have m: "plain_message w model_id m"
    and ms: "list_all (plain_message w model_id) ms"
    by simp_all
  obtain st1 where st1: "process_message w model_id st m = Inr st1"
    "processed_messages st1 = processed_messages st @ [wrapped w model_id m]"
    using process_message_plain_message [OF m] by blast
  obtain st' where "process_messages w model_id st1 ms = Inr st'"
    "processed_messages st' = processed_messages st1 @ map (wrapped w model_id) ms"
    using Cons.IH [OF ms] by blast
  then show ?case using st1 by simp
qed

lemma wrapped_other_model:
  "model_id \<noteq> ''claude-3-5-sonnet-20241022'' \<Longrightarrow> wrapped w model_id m = wrapped_unmarked m"
  by (simp add: wrapped_def wrapped_unmarked_def cache_eligible_def split: option.splits)

text \<open>
  Claim C8, as amended. For a message list in which every content is a plain string
  (and the tokenizer answers where it is asked), normalization returns one message per
  message, with the same role and with a content of exactly one text part that has the
  same text; the part carries the cache-eligibility marker when the model id is
  \<^verbatim>\<open>claude-3-5-sonnet-20241022\<close> and the text has at least 1024 tokens. For
  every other model id nothing is added to the part.
\<close>

theorem normalize_plain_contents:
  assumes "list_all (plain_message w model_id) messages"
  shows "normalize w model_id messages = Inr (map (wrapped w model_id) messages) \<and>
         (model_id \<noteq> ''claude-3-5-sonnet-20241022'' \<longrightarrow>
            normalize w model_id messages = Inr (map wrapped_unmarked messages))"
proof -
  obtain st' where "process_messages w model_id initial_locals messages = Inr st'"
    "processed_messages st' =
       processed_messages initial_locals @ map (wrapped w model_id) messages"
    using process_messages_plain [OF assms] by blast
  then have n: "normalize w model_id messages = Inr (map (wrapped w model_id) messages)"
    by (simp add: normalize_def initial_locals_def)
  then show ?thesis
    by (simp add: wrapped_other_model cong: map_cong)
qed

theorem normalize_plain_contents_witness:
  "\<forall>r. normalize (example_world r) ''claude-sonnet-4-20250514''
          [PDict [(''role'', PStr ''user''), (''content'', PStr ''What is 2 + 2?'')],
           PDict [(''role'', PStr ''assistant''), (''content'', PStr ''4'')]] =
        Inr [PDict [(''role'', PStr ''user''),
                    (''content'', PList [PDict [(''type'', PStr ''text''),
                                                (''text'', PStr ''What is 2 + 2?'')]])],
             PDict [(''role'', PStr ''assistant''),
                    (''content'', PList [PDict [(''type'', PStr ''text''),
                                                (''text'', PStr ''4'')]])]]"
proof
  fix r
  let ?msgs = "[PDict [(''role'', PStr ''user''), (''content'', PStr ''What is 2 + 2?'')],
                PDict [(''role'', PStr ''assistant''), (''content'', PStr ''4'')]]"
  have p: "list_all (plain_message (example_world r) ''claude-sonnet-4-20250514'') ?msgs"
    by (simp add: plain_message_def payload_entry_def tokenizable_def caching_model_def)
  show "normalize (example_world r) ''claude-sonnet-4-20250514'' ?msgs =
        Inr [PDict [(''role'', PStr ''user''),
                    (''content'', PList [PDict [(''type'', PStr ''text''),
                                                (''text'', PStr ''What is 2 + 2?'')]])],
             PDict [(''role'', PStr ''assistant''),
                    (''content'', PList [PDict [(''type'', PStr ''text''),
                                                (''text'', PStr ''4'')]])]]"
    using normalize_plain_contents [OF p]
    by (simp add: wrapped_def wrapped_unmarked_def cache_eligible_def payload_entry_def
          plain_text_part_def)
qed

text \<open>
  The claim as it is stated, with nothing added for every model id, fails for the
  caching model: a plain content of 1024 tokens is wrapped into a text part that
  carries \<^verbatim>\<open>cache_control\<close>, which is not the part with just the type and the text.
\<close>

theorem normalize_plain_contents_counterexample:
  "plain_message
     (example_world \<lparr>status_code = 200, body_text = [], json = Inr PNone, events = []\<rparr>)
     ''claude-3-5-sonnet-20241022''
     (PDict [(''role'', PStr ''user''), (''content'', PStr (replicate 1024 CHR ''a''))]) \<and>
   normalize
     (example_world \<lparr>status_code = 200, body_text = [], json = Inr PNone, events = []\<rparr>)
     ''claude-3-5-sonnet-20241022''
     [PDict [(''role'', PStr ''user''), (''content'', PStr (replicate 1024 CHR ''a''))]] =
   Inr [PDict [(''role'', PStr ''user''),
               (''content'',
                PList [PDict [(''type'', PStr ''text''),
                              (''text'', PStr (replicate 1024 CHR ''a'')),
                              (''cache_control'', PDict [(''type'', PStr ''ephemeral'')])]])]] \<and>
   normalize
     (example_world \<lparr>status_code = 200, body_text = [], json = Inr PNone, events = []\<rparr>)
     ''claude-3-5-sonnet-20241022''
     [PDict [(''role'', PStr ''user''), (''content'', PStr (replicate 1024 CHR ''a''))]] \<noteq>
   Inr (map wrapped_unmarked
     [PDict [(''role'', PStr ''user''), (''content'', PStr (replicate 1024 CHR ''a''))]])"
proof -
  let ?w = "example_world \<lparr>status_code = 200, body_text = [], json = Inr PNone, events = []\<rparr>"
  let ?m = "PDict [(''role'', PStr ''user''), (''content'', PStr (replicate 1024 CHR ''a''))]"
  have p: "plain_message ?w ''claude-3-5-sonnet-20241022'' ?m"
    by (simp add: plain_message_def payload_entry_def tokenizable_def example_tokens)
  have n: "normalize ?w ''claude-3-5-sonnet-20241022'' [?m] =
      Inr [PDict [(''role'', PStr ''user''),
               (''content'',
                PList [PDict [(''type'', PStr ''text''),
                              (''text'', PStr (replicate 1024 CHR ''a'')),
                              (''cache_control'', PDict [(''type'', PStr ''ephemeral'')])]])]]"
    by (simp add: normalize_def initial_locals_def process_message_plain text_part_cases
          caching_model_def example_tokens marked_text_part_def)
  show ?thesis
    using p n by (simp add: wrapped_unmarked_def payload_entry_def plain_text_part_def)
qed


section \<open>The system message and the payload\<close>

lemma process_message_role:
  assumes "process_message w model_id st message = Inr st'"
  shows "\<exists>m. processed_messages st' = processed_messages st @ [m] \<and>
             payload_entry m ''role'' = payload_entry message ''role''"
proof -
  from assms obtain d where d: "message = PDict d"
    by (cases message) (auto simp: process_message_def Let_def)
  show ?thesis
  proof (cases "\<exists>items. map_of d ''content'' = Some (PList items)")
    case True
    then obtain items where items: "map_of d ''content'' = Some (PList items)" by blast
    from assms d obtain st1 role where st1:
      "process_items w model_id (st\<lparr>processed_content := []\<rparr>) items = Inr st1"
      "map_of d ''role'' = Some role"
      "st' = st1\<lparr>processed_messages := processed_messages st1 @
               [PDict [(''role'', role), (''content'', PList (processed_content st1))]]\<rparr>"
      by (auto simp: process_message_list [OF items] split: sum.splits option.splits)
    have "processed_messages st1 = processed_messages (st\<lparr>processed_content := []\<rparr>)"
      using process_items_follows_rule [OF st1(1)] by simp
    then show ?thesis
      using st1(2,3) d by (simp add: payload_entry_def)
  next
    case False
    from assms d obtain text_content c role where tp:
      "map_of d ''role'' = Some role"
      "st' = st\<lparr>processed_content := [text_content], cached := (cached st \<or> c),
                processed_messages := processed_messages st @
                  [PDict [(''role'', role), (''content'', PList [text_content])]]\<rparr>"
      by (auto simp: process_message_plain [OF False] split: sum.splits option.splits)
    then show ?thesis
      using d by (simp add: payload_entry_def)
  qed
qed

lemma process_messages_roles:
  assumes "process_messages w model_id st messages = Inr st'"
  shows "\<exists>new. processed_messages st' = processed_messages st @ new \<and>
               map (\<lambda>m. payload_entry m ''role'') new =
               map (\<lambda>m. payload_entry m ''role'') messages"
  using assms
proof (induction messages arbitrary: st)
  case Nil
  then show ?case by simp
next
  case (Cons message messages)
  from Cons.prems obtain st1 where st1: "process_message w model_id st message = Inr st1"
    "process_messages w model_id st1 messages = Inr st'"
    by (auto split: sum.splits)
  obtain m where m: "processed_messages st1 = processed_messages st @ [m]"
    "payload_entry m ''role'' = payload_entry message ''role''"
    using process_message_role [OF st1(1)] by blast
  obtain new where new: "processed_messages st' = processed_messages st1 @ new"
    "map (\<lambda>m. payload_entry m ''role'') new = map (\<lambda>m. payload_entry m ''role'') messages"
    using Cons.IH [OF st1(2)] by blast
  have "processed_messages st' = processed_messages st @ (m # new)"
    using m(1) new(1) by simp
  moreover have "map (\<lambda>m. payload_entry m ''role'') (m # new) =
                 map (\<lambda>m. payload_entry m ''role'') (message # messages)"
    using m(2) new(2) by simp
  ultimately show ?case by blast
qed

lemma normalize_roles:
  assumes "normalize w model_id messages = Inr normalized"
  shows "map (\<lambda>m. payload_entry m ''role'') normalized =
         map (\<lambda>m. payload_entry m ''role'') messages"
proof -
  from assms obtain st' where st':
    "process_messages w model_id initial_locals messages = Inr st'"
    "normalized = processed_messages st'"
    by (auto simp: normalize_def split: sum.splits)
  from process_messages_roles [OF st'(1)] st'(2) show ?thesis
    by (auto simp: initial_locals_def)
qed

lemma prepare_payload_entries:
  assumes "prepare_payload w model_id messages body = Inr payload"
  shows "\<exists>normalized.
           normalize w model_id (snd (pop_system_message w messages)) = Inr normalized \<and>
           payload_entry payload ''messages'' = Some (PList normalized) \<and>
           payload_entry payload ''system'' =
             (case fst (pop_system_message w messages) of
                None \<Rightarrow> None
              | Some s \<Rightarrow> (if s \<noteq> [] then Some (PStr s) else None))"
  using assms
  by (cases "pop_system_message w messages")
     (auto simp: prepare_payload_def payload_entry_def split: sum.splits option.splits)

lemma pop_spec_system_first:
  "has_system_role first \<Longrightarrow> snd (pop_system_message_spec join (first # rest)) = rest"
  by (cases first)
     (auto simp: has_system_role_def pop_system_message_spec_def payload_entry_def)

lemma pop_spec_other_first:
  "\<not> has_system_role first \<Longrightarrow>
   pop_system_message_spec join (first # rest) = (None, first # rest)"
  by (cases first)
     (auto simp: has_system_role_def pop_system_message_spec_def payload_entry_def)

text \<open>
  Claim C7. With \<^verbatim>\<open>pop_system_message\<close> as the specification describes it, a
  payload that \<^verbatim>\<open>pipe\<close> builds has the \<^verbatim>\<open>system\<close> key exactly when a system
  message was taken from the head of the list and its text is not empty, and the
  value of the key is that text. When the first message has the role
  \<^verbatim>\<open>system\<close>, the messages of the payload are the normalization of the messages
  after it, one per message and with the roles of those messages: the first message
  is not among them. When the first message has another role, no message is taken
  away and there is no \<^verbatim>\<open>system\<close> key.
\<close>

theorem system_key_iff_system_message:
  assumes "pop_system_message w = pop_system_message_spec join"
    and "prepare_payload w model_id messages body = Inr payload"
  shows "(payload_entry payload ''system'' \<noteq> None \<longleftrightarrow>
            (\<exists>s. fst (pop_system_message_spec join messages) = Some s \<and> s \<noteq> [])) \<and>
         (\<forall>s. fst (pop_system_message_spec join messages) = Some s \<and> s \<noteq> [] \<longrightarrow>
            payload_entry payload ''system'' = Some (PStr s)) \<and>
         (\<forall>first rest. messages = first # rest \<and> has_system_role first \<longrightarrow>
            (\<exists>normalized.
               normalize w model_id rest = Inr normalized \<and>
               payload_entry payload ''messages'' = Some (PList normalized) \<and>
               map (\<lambda>m. payload_entry m ''role'') normalized =
                 map (\<lambda>m. payload_entry m ''role'') rest)) \<and>
         (\<forall>first rest. messages = first # rest \<and> \<not> has_system_role first \<longrightarrow>
            payload_entry payload ''system'' = None \<and>
            (\<exists>normalized.
               normalize w model_id messages = Inr normalized \<and>
               payload_entry payload ''messages'' = Some (PList normalized)))"
proof -
  obtain normalized where n:
    "normalize w model_id (snd (pop_system_message_spec join messages)) = Inr normalized"
    "payload_entry payload ''messages'' = Some (PList normalized)"
    "payload_entry payload ''system'' =
       (case fst (pop_system_message_spec join messages) of
          None \<Rightarrow> None
        | Some s \<Rightarrow> (if s \<noteq> [] then Some (PStr s) else None))"
    using prepare_payload_entries [OF assms(2)] assms(1) by auto
  have key: "payload_entry payload ''system'' \<noteq> None \<longleftrightarrow>
            (\<exists>s. fst (pop_system_message_spec join messages) = Some s \<and> s \<noteq> [])"
    using n(3) by (auto split: option.splits)
  have val: "\<forall>s. fst (pop_system_message_spec join messages) = Some s \<and> s \<noteq> [] \<longrightarrow>
            payload_entry payload ''system'' = Some (PStr s)"
    using n(3) by simp
  have sys: "\<exists>normalized.
               normalize w model_id rest = Inr normalized \<and>
               payload_entry payload ''messages'' = Some (PList normalized) \<and>
               map (\<lambda>m. payload_entry m ''role'') normalized =
                 map (\<lambda>m. payload_entry m ''role'') rest"
    if "messages = first # rest" and "has_system_role first" for first rest
  proof -
    have "normalize w model_id rest = Inr normalized"
      using n(1) that by (simp add: pop_spec_system_first)
    then show ?thesis
      using n(2) normalize_roles by blast
  qed
  have other: "payload_entry payload ''system'' = None \<and>
            (\<exists>normalized.
               normalize w model_id messages = Inr normalized \<and>
               payload_entry payload ''messages'' = Some (PList normalized))"
    if "messages = first # rest" and "\<not> has_system_role first" for first rest
    using n that by (simp add: pop_spec_other_first)
  show ?thesis
    using key val sys other by blast
qed

theorem system_key_iff_system_message_witness:
  "\<forall>r. prepare_payload
          ((example_world r)\<lparr>pop_system_message := pop_system_message_spec (\<lambda>c. [])\<rparr>)
          ''claude-opus-4-20250514''
          [PDict [(''role'', PStr ''system''), (''content'', PStr ''Be brief.'')],
           PDict [(''role'', PStr ''user''), (''content'', PStr ''hi'')]]
          [(''max_tokens'', PInt 256)] =
        Inr (PDict [(''model'', PStr ''claude-opus-4-20250514''),
                    (''messages'',
                     PList [PDict [(''role'', PStr ''user''),
                                   (''content'', PList [PDict [(''type'', PStr ''text''),
                                                               (''text'', PStr ''hi'')]])]]),
                    (''max_tokens'', PInt 256),
                    (''temperature'', PFloat (8 / 10)),
                    (''top_k'', PInt 40),
                    (''top_p'', PFloat (9 / 10)),
                    (''stop_sequences'', PList []),
                    (''system'', PStr ''Be brief.''),
                    (''stream'', PBool False)])"
proof
  fix r
  let ?w = "(example_world r)\<lparr>pop_system_message := pop_system_message_spec (\<lambda>c. [])\<rparr>"
  let ?msgs = "[PDict [(''role'', PStr ''system''), (''content'', PStr ''Be brief.'')],
                PDict [(''role'', PStr ''user''), (''content'', PStr ''hi'')]]"
  let ?payload = "PDict [(''model'', PStr ''claude-opus-4-20250514''),
                    (''messages'',
                     PList [PDict [(''role'', PStr ''user''),
                                   (''content'', PList [PDict [(''type'', PStr ''text''),
                                                               (''text'', PStr ''hi'')]])]]),
                    (''max_tokens'', PInt 256),
                    (''temperature'', PFloat (8 / 10)),
                    (''top_k'', PInt 40),
                    (''top_p'', PFloat (9 / 10)),
                    (''stop_sequences'', PList []),
                    (''system'', PStr ''Be brief.''),
                    (''stream'', PBool False)]"
  have pop: "pop_system_message ?w = pop_system_message_spec (\<lambda>c. [])"
    by simp
  have built: "prepare_payload ?w ''claude-opus-4-20250514'' ?msgs [(''max_tokens'', PInt 256)] =
          Inr ?payload"
    by (simp add: prepare_payload_def pop_system_message_spec_def normalize_def
          initial_locals_def process_message_plain text_part_cases caching_model_def
          plain_text_part_def body_get_def)
  have "payload_entry ?payload ''system'' = Some (PStr ''Be brief.'')"
    using system_key_iff_system_message [OF pop built]
    by (simp add: pop_system_message_spec_def)
  with built show "prepare_payload ?w ''claude-opus-4-20250514'' ?msgs
          [(''max_tokens'', PInt 256)] = Inr ?payload"
    by simp
qed


end
